theory Spec2Isabelle
  imports Main "HOL-Library.Word"
begin

unbundle bit_operations_syntax

section \<open>Values of the program\<close>

text \<open>
  A JavaScript string is a sequence of 16-bit code units; a \<open>Uint8Array\<close> is a sequence
  of bytes. String literals of the source are written with \<open>js\<close>.
\<close>

type_synonym jsstring = "16 word list"
type_synonym bytes = "8 word list"

definition js :: "string \<Rightarrow> jsstring" where
  "js s = map of_char s"

text \<open>The exceptions that can travel through the two handlers.\<close>

datatype js_error =
    TypeError
  | DataError
  | SyntaxError
  | DecryptionFailed
  | D1Error

section \<open>Hex codec\<close>

text \<open>
  \<open>buf2hex\<close>: every byte becomes \<open>x.toString(16).padStart(2, '0')\<close>, two lower-case
  hexadecimal digits.
\<close>

definition hex_digit :: "nat \<Rightarrow> 16 word" where
  "hex_digit n = (if n < 10 then of_nat (48 + n) else of_nat (87 + n))"

definition byte2hex :: "8 word \<Rightarrow> jsstring" where
  "byte2hex x = [hex_digit (unat x div 16), hex_digit (unat x mod 16)]"

definition buf2hex :: "bytes \<Rightarrow> jsstring" where
  "buf2hex buffer = concat (map byte2hex buffer)"

text \<open>
  \<open>hexStr.match(/.{1,2}/g)\<close>: without the \<open>s\<close> flag the dot matches every code unit except
  the four line terminators, so the string is cut into greedy chunks of one or two
  code units and line terminators are skipped. \<open>match\<close> returns \<open>null\<close> when there is no
  chunk at all.
\<close>

definition is_line_terminator :: "16 word \<Rightarrow> bool" where
  "is_line_terminator c = (c = 0x0A \<or> c = 0x0D \<or> c = 0x2028 \<or> c = 0x2029)"

fun match_chunks :: "jsstring \<Rightarrow> jsstring list" where
  "match_chunks [] = []"
| "match_chunks [a] = (if is_line_terminator a then [] else [[a]])"
| "match_chunks (a # b # rest) =
     (if is_line_terminator a then match_chunks (b # rest)
      else if is_line_terminator b then [a] # match_chunks (b # rest)
      else [a, b] # match_chunks rest)"

definition match_pairs :: "jsstring \<Rightarrow> jsstring list option" where
  "match_pairs s = (case match_chunks s of [] \<Rightarrow> None | c # cs \<Rightarrow> Some (c # cs))"

text \<open>
  \<open>parseInt(byte, 16)\<close>: leading white space is dropped, then one sign, then a \<open>0x\<close> or
  \<open>0X\<close> prefix; the longest run of hexadecimal digits that follows is the value, and
  an empty run is \<open>NaN\<close> (here \<open>None\<close>).
\<close>

definition is_js_whitespace :: "16 word \<Rightarrow> bool" where
  "is_js_whitespace c =
     (c = 0x09 \<or> c = 0x0B \<or> c = 0x0C \<or> c = 0x20 \<or> c = 0xA0 \<or> c = 0xFEFF \<or>
      c = 0x1680 \<or> (0x2000 \<le> c \<and> c \<le> 0x200A) \<or> c = 0x202F \<or> c = 0x205F \<or>
      c = 0x3000 \<or> is_line_terminator c)"

definition hex_value :: "16 word \<Rightarrow> nat option" where
  "hex_value c =
     (if 0x30 \<le> c \<and> c \<le> 0x39 then Some (unat c - 48)
      else if 0x61 \<le> c \<and> c \<le> 0x66 then Some (unat c - 87)
      else if 0x41 \<le> c \<and> c \<le> 0x46 then Some (unat c - 55)
      else None)"

fun hex_run :: "jsstring \<Rightarrow> nat list" where
  "hex_run [] = []"
| "hex_run (c # cs) = (case hex_value c of None \<Rightarrow> [] | Some d \<Rightarrow> d # hex_run cs)"

definition digits_value :: "nat list \<Rightarrow> nat" where
  "digits_value ds = foldl (\<lambda>acc d. 16 * acc + d) 0 ds"

definition parseInt16 :: "jsstring \<Rightarrow> int option" where
  "parseInt16 s =
     (let s1 = dropWhile is_js_whitespace s;
          negative = (case s1 of [] \<Rightarrow> False | c # _ \<Rightarrow> c = 0x2D);
          s2 = (case s1 of [] \<Rightarrow> [] | c # cs \<Rightarrow> if c = 0x2B \<or> c = 0x2D then cs else s1);
          s3 = (case s2 of
                  a # b # cs \<Rightarrow> if a = 0x30 \<and> (b = 0x78 \<or> b = 0x58) then cs else s2
                | _ \<Rightarrow> s2);
          z = hex_run s3
      in if z = [] then None
         else Some ((if negative then - 1 else 1) * int (digits_value z)))"

text \<open>
  \<open>new Uint8Array(numbers)\<close>: \<open>NaN\<close> is stored as 0, every other number modulo 256.
\<close>

definition to_uint8 :: "int option \<Rightarrow> 8 word" where
  "to_uint8 v = (case v of None \<Rightarrow> 0 | Some i \<Rightarrow> word_of_int i)"

definition hex2bytes :: "jsstring \<Rightarrow> js_error + bytes" where
  "hex2bytes hexStr =
     (case match_pairs hexStr of
        None \<Rightarrow> Inl TypeError
      | Some chunks \<Rightarrow> Inr (map (\<lambda>byte. to_uint8 (parseInt16 byte)) chunks))"

section \<open>Text codec\<close>

text \<open>
  \<open>enc.encode\<close> (a \<open>TextEncoder\<close>) first reads the code units as Unicode scalar values,
  a surrogate that has no partner becoming U+FFFD, and then writes each scalar value in
  UTF-8. Byte values are computed on \<open>nat\<close>; the masks and shifts of the encoding are
  written as \<open>div\<close> and \<open>mod\<close>.
\<close>

definition is_high_surrogate :: "16 word \<Rightarrow> bool" where
  "is_high_surrogate c = (0xD800 \<le> unat c \<and> unat c \<le> 0xDBFF)"

definition is_low_surrogate :: "16 word \<Rightarrow> bool" where
  "is_low_surrogate c = (0xDC00 \<le> unat c \<and> unat c \<le> 0xDFFF)"

fun utf16_scalars :: "jsstring \<Rightarrow> nat list" where
  "utf16_scalars [] = []"
| "utf16_scalars [a] =
     (if is_high_surrogate a \<or> is_low_surrogate a then [0xFFFD] else [unat a])"
| "utf16_scalars (a # b # rest) =
     (if is_high_surrogate a then
        (if is_low_surrogate b
         then (0x10000 + (unat a - 0xD800) * 0x400 + (unat b - 0xDC00)) # utf16_scalars rest
         else 0xFFFD # utf16_scalars (b # rest))
      else if is_low_surrogate a then 0xFFFD # utf16_scalars (b # rest)
      else unat a # utf16_scalars (b # rest))"

definition utf8_encode_scalar :: "nat \<Rightarrow> nat list" where
  "utf8_encode_scalar cp =
     (if cp < 0x80 then [cp]
      else if cp < 0x800 then [0xC0 + cp div 64, 0x80 + cp mod 64]
      else if cp < 0x10000 then
        [0xE0 + cp div 4096, 0x80 + (cp div 64) mod 64, 0x80 + cp mod 64]
      else
        [0xF0 + cp div 262144, 0x80 + (cp div 4096) mod 64,
         0x80 + (cp div 64) mod 64, 0x80 + cp mod 64])"

definition enc_encode :: "jsstring \<Rightarrow> bytes" where
  "enc_encode s = map of_nat (concat (map utf8_encode_scalar (utf16_scalars s)))"

text \<open>
  \<open>dec.decode\<close> (a \<open>TextDecoder\<close> made with no options: UTF-8, not fatal, \<open>ignoreBOM\<close>
  false). The decoder of the Encoding standard keeps the number of continuation bytes
  still needed, the code point so far and the bounds allowed for the next byte; a byte
  outside the bounds ends the sequence with U+FFFD and is read again as a first byte.
  \<open>utf8_continue\<close> is that state after a lead byte, returning the code point emitted and
  the input that is left.
\<close>

fun utf8_continue :: "nat \<Rightarrow> nat \<Rightarrow> nat \<Rightarrow> nat \<Rightarrow> nat list \<Rightarrow> nat \<times> nat list" where
  "utf8_continue 0 cp lower upper bs = (cp, bs)"
| "utf8_continue (Suc needed) cp lower upper [] = (0xFFFD, [])"
| "utf8_continue (Suc needed) cp lower upper (b # bs) =
     (if lower \<le> b \<and> b \<le> upper
      then utf8_continue needed (cp * 64 + b mod 64) 0x80 0xBF bs
      else (0xFFFD, b # bs))"

definition utf8_lead :: "nat \<Rightarrow> nat list \<Rightarrow> nat \<times> nat list" where
  "utf8_lead b bs =
     (if b \<le> 0x7F then (b, bs)
      else if 0xC2 \<le> b \<and> b \<le> 0xDF then utf8_continue 1 (b mod 32) 0x80 0xBF bs
      else if 0xE0 \<le> b \<and> b \<le> 0xEF then
        utf8_continue 2 (b mod 16)
          (if b = 0xE0 then 0xA0 else 0x80) (if b = 0xED then 0x9F else 0xBF) bs
      else if 0xF0 \<le> b \<and> b \<le> 0xF4 then
        utf8_continue 3 (b mod 8)
          (if b = 0xF0 then 0x90 else 0x80) (if b = 0xF4 then 0x8F else 0xBF) bs
      else (0xFFFD, bs))"

function utf8_decode :: "nat list \<Rightarrow> nat list" where
  "utf8_decode [] = []"
| "utf8_decode (b # bs) = fst (utf8_lead b bs) # utf8_decode (snd (utf8_lead b bs))"
  by pat_completeness auto
termination
proof (relation "measure length")
  show "wf (measure length)" by simp
next
  fix b :: nat and bs :: "nat list"
  have "length (snd (utf8_continue n cp lo hi xs)) \<le> length xs" for n cp lo hi xs
    by (induction n cp lo hi xs rule: utf8_continue.induct) auto
  then show "(snd (utf8_lead b bs), b # bs) \<in> measure length"
    by (simp add: utf8_lead_def less_Suc_eq_le)
qed

definition utf16_units :: "nat \<Rightarrow> jsstring" where
  "utf16_units cp =
     (if cp < 0x10000 then [of_nat cp]
      else [of_nat (0xD800 + (cp - 0x10000) div 0x400),
            of_nat (0xDC00 + (cp - 0x10000) mod 0x400)])"

text \<open>With \<open>ignoreBOM\<close> false, a U+FEFF at the very start of the output is dropped.\<close>

definition strip_bom :: "nat list \<Rightarrow> nat list" where
  "strip_bom cps = (case cps of [] \<Rightarrow> [] | c # cs \<Rightarrow> if c = 0xFEFF then cs else c # cs)"

definition dec_decode :: "bytes \<Rightarrow> jsstring" where
  "dec_decode bs = concat (map utf16_units (strip_bom (utf8_decode (map unat bs))))"

text \<open>
  \<open>c.req.text()\<close> is the \<open>text()\<close> of the Fetch request body: the same UTF-8 decoding,
  which also drops one leading byte order mark.
\<close>

definition req_text :: "bytes \<Rightarrow> jsstring" where
  "req_text body = dec_decode body"

section \<open>JSON\<close>

text \<open>
  The values \<open>JSON.parse\<close> can return, and \<open>undefined\<close> for a property that is not
  there. A number keeps its source text: no handler computes with it.
\<close>

datatype jsval =
    JUndefined
  | JNull
  | JBool bool
  | JNum jsstring
  | JStr jsstring
  | JArr "jsval list"
  | JObj "(jsstring \<times> jsval) list"

text \<open>
  \<open>JSON.stringify\<close> of a string: the quote, the backslash and the control characters
  are escaped, a surrogate without its partner is written as a four-digit escape, every other
  code unit stands for itself.
\<close>

definition unicode_escape :: "16 word \<Rightarrow> jsstring" where
  "unicode_escape c =
     [0x5C, 0x75, hex_digit (unat c div 4096), hex_digit ((unat c div 256) mod 16),
      hex_digit ((unat c div 16) mod 16), hex_digit (unat c mod 16)]"

definition quote_unit :: "16 word \<Rightarrow> jsstring" where
  "quote_unit c =
     (if c = 0x08 then [0x5C, 0x62]
      else if c = 0x09 then [0x5C, 0x74]
      else if c = 0x0A then [0x5C, 0x6E]
      else if c = 0x0C then [0x5C, 0x66]
      else if c = 0x0D then [0x5C, 0x72]
      else if c = 0x22 then [0x5C, 0x22]
      else if c = 0x5C then [0x5C, 0x5C]
      else if c < 0x20 then unicode_escape c
      else [c])"

fun quote_units :: "jsstring \<Rightarrow> jsstring" where
  "quote_units [] = []"
| "quote_units [a] =
     (if is_high_surrogate a \<or> is_low_surrogate a then unicode_escape a else quote_unit a)"
| "quote_units (a # b # rest) =
     (if is_high_surrogate a then
        (if is_low_surrogate b then a # b # quote_units rest
         else unicode_escape a @ quote_units (b # rest))
      else if is_low_surrogate a then unicode_escape a @ quote_units (b # rest)
      else quote_unit a @ quote_units (b # rest))"

definition json_quote :: "jsstring \<Rightarrow> jsstring" where
  "json_quote s = [0x22] @ quote_units s @ [0x22]"

text \<open>\<open>JSON.stringify({ id, key })\<close> for two strings.\<close>

definition stringify_payload :: "jsstring \<Rightarrow> jsstring \<Rightarrow> jsstring" where
  "stringify_payload id_str key_str =
     [0x7B] @ json_quote (js ''id'') @ [0x3A] @ json_quote id_str @ [0x2C] @
     json_quote (js ''key'') @ [0x3A] @ json_quote key_str @ [0x7D]"

text \<open>
  \<open>JSON.parse\<close>. White space is space, tab, line feed and carriage return. The parser of
  values, array elements and object members recurses on a fuel argument; every call
  consumes input, so \<open>2 * length s + 2\<close> is never used up on a text \<open>s\<close>.
\<close>

definition is_json_ws :: "16 word \<Rightarrow> bool" where
  "is_json_ws c = (c = 0x20 \<or> c = 0x09 \<or> c = 0x0A \<or> c = 0x0D)"

definition skip_ws :: "jsstring \<Rightarrow> jsstring" where
  "skip_ws s = dropWhile is_json_ws s"

definition parse_hex4 :: "jsstring \<Rightarrow> 16 word option" where
  "parse_hex4 s =
     (case map hex_value s of
        [Some a, Some b, Some c, Some d] \<Rightarrow> Some (of_nat (((a * 16 + b) * 16 + c) * 16 + d))
      | _ \<Rightarrow> None)"

definition simple_escape :: "16 word \<Rightarrow> 16 word option" where
  "simple_escape e =
     (if e = 0x22 then Some 0x22
      else if e = 0x5C then Some 0x5C
      else if e = 0x2F then Some 0x2F
      else if e = 0x62 then Some 0x08
      else if e = 0x66 then Some 0x0C
      else if e = 0x6E then Some 0x0A
      else if e = 0x72 then Some 0x0D
      else if e = 0x74 then Some 0x09
      else None)"

fun parse_chars :: "jsstring \<Rightarrow> (jsstring \<times> jsstring) option" where
  "parse_chars [] = None"
| "parse_chars (c # cs) =
     (if c = 0x22 then Some ([], cs)
      else if c = 0x5C then
        (case cs of
           [] \<Rightarrow> None
         | e # cs' \<Rightarrow>
             if e = 0x75 then
               (case parse_hex4 (take 4 cs') of
                  None \<Rightarrow> None
                | Some u \<Rightarrow> map_option (\<lambda>(s, r). (u # s, r)) (parse_chars (drop 4 cs')))
             else
               (case simple_escape e of
                  None \<Rightarrow> None
                | Some u \<Rightarrow> map_option (\<lambda>(s, r). (u # s, r)) (parse_chars cs')))
      else if c < 0x20 then None
      else map_option (\<lambda>(s, r). (c # s, r)) (parse_chars cs))"

definition is_digit :: "16 word \<Rightarrow> bool" where
  "is_digit c = (0x30 \<le> c \<and> c \<le> 0x39)"

definition parse_digits :: "jsstring \<Rightarrow> (jsstring \<times> jsstring) option" where
  "parse_digits s =
     (if takeWhile is_digit s = [] then None
      else Some (takeWhile is_digit s, dropWhile is_digit s))"

definition parse_int_part :: "jsstring \<Rightarrow> (jsstring \<times> jsstring) option" where
  "parse_int_part s =
     (case s of
        [] \<Rightarrow> None
      | c # r \<Rightarrow> if c = 0x30 then Some ([c], r) else parse_digits s)"

definition parse_fraction :: "jsstring \<Rightarrow> (jsstring \<times> jsstring) option" where
  "parse_fraction s =
     (case s of
        [] \<Rightarrow> Some ([], s)
      | c # r \<Rightarrow>
          if c = 0x2E then map_option (\<lambda>(ds, r'). (c # ds, r')) (parse_digits r)
          else Some ([], s))"

definition parse_exponent :: "jsstring \<Rightarrow> (jsstring \<times> jsstring) option" where
  "parse_exponent s =
     (case s of
        [] \<Rightarrow> Some ([], s)
      | e # r \<Rightarrow>
          if e = 0x65 \<or> e = 0x45 then
            (case r of
               [] \<Rightarrow> None
             | g # r' \<Rightarrow>
                 if g = 0x2B \<or> g = 0x2D
                 then map_option (\<lambda>(ds, r''). (e # g # ds, r'')) (parse_digits r')
                 else map_option (\<lambda>(ds, r''). (e # ds, r'')) (parse_digits r))
          else Some ([], s))"

definition parse_number :: "jsstring \<Rightarrow> (jsstring \<times> jsstring) option" where
  "parse_number s =
     (let (sign, s1) = (case s of [] \<Rightarrow> ([], s) | c # r \<Rightarrow> if c = 0x2D then ([c], r) else ([], s))
      in case parse_int_part s1 of
           None \<Rightarrow> None
         | Some (ip, s2) \<Rightarrow>
             (case parse_fraction s2 of
                None \<Rightarrow> None
              | Some (fp, s3) \<Rightarrow>
                  (case parse_exponent s3 of
                     None \<Rightarrow> None
                   | Some (ep, s4) \<Rightarrow> Some (sign @ ip @ fp @ ep, s4))))"

definition parse_literal :: "jsstring \<Rightarrow> (jsval \<times> jsstring) option" where
  "parse_literal s =
     (if take 4 s = js ''true'' then Some (JBool True, drop 4 s)
      else if take 5 s = js ''false'' then Some (JBool False, drop 5 s)
      else if take 4 s = js ''null'' then Some (JNull, drop 4 s)
      else map_option (\<lambda>(n, r). (JNum n, r)) (parse_number s))"

fun parse_value :: "nat \<Rightarrow> jsstring \<Rightarrow> (jsval \<times> jsstring) option"
  and parse_elements :: "nat \<Rightarrow> jsstring \<Rightarrow> (jsval list \<times> jsstring) option"
  and parse_members :: "nat \<Rightarrow> jsstring \<Rightarrow> ((jsstring \<times> jsval) list \<times> jsstring) option"
where
  "parse_value 0 s = None"
| "parse_value (Suc n) s =
     (case s of
        [] \<Rightarrow> None
      | c # r \<Rightarrow>
          if c = 0x7B then
            (case skip_ws r of
               [] \<Rightarrow> None
             | c' # r' \<Rightarrow>
                 if c' = 0x7D then Some (JObj [], r')
                 else map_option (\<lambda>(ms, r''). (JObj ms, r'')) (parse_members n (c' # r')))
          else if c = 0x5B then
            (case skip_ws r of
               [] \<Rightarrow> None
             | c' # r' \<Rightarrow>
                 if c' = 0x5D then Some (JArr [], r')
                 else map_option (\<lambda>(vs, r''). (JArr vs, r'')) (parse_elements n (c' # r')))
          else if c = 0x22 then map_option (\<lambda>(str, r'). (JStr str, r')) (parse_chars r)
          else parse_literal s)"
| "parse_elements 0 s = None"
| "parse_elements (Suc n) s =
     (case parse_value n s of
        None \<Rightarrow> None
      | Some (v, r) \<Rightarrow>
          (case skip_ws r of
             [] \<Rightarrow> None
           | c # r' \<Rightarrow>
               if c = 0x2C then
                 map_option (\<lambda>(vs, r''). (v # vs, r'')) (parse_elements n (skip_ws r'))
               else if c = 0x5D then Some ([v], r')
               else None))"
| "parse_members 0 s = None"
| "parse_members (Suc n) s =
     (case s of
        [] \<Rightarrow> None
      | q # r \<Rightarrow>
          if q \<noteq> 0x22 then None
          else
            (case parse_chars r of
               None \<Rightarrow> None
             | Some (k, r1) \<Rightarrow>
                 (case skip_ws r1 of
                    [] \<Rightarrow> None
                  | colon # r2 \<Rightarrow>
                      if colon \<noteq> 0x3A then None
                      else
                        (case parse_value n (skip_ws r2) of
                           None \<Rightarrow> None
                         | Some (v, r3) \<Rightarrow>
                             (case skip_ws r3 of
                                [] \<Rightarrow> None
                              | c # r4 \<Rightarrow>
                                  if c = 0x2C then
                                    map_option (\<lambda>(ms, r5). ((k, v) # ms, r5))
                                      (parse_members n (skip_ws r4))
                                  else if c = 0x7D then Some ([(k, v)], r4)
                                  else None)))))"

definition json_parse :: "jsstring \<Rightarrow> js_error + jsval" where
  "json_parse s =
     (case parse_value (2 * length s + 2) (skip_ws s) of
        None \<Rightarrow> Inl SyntaxError
      | Some (v, r) \<Rightarrow> if skip_ws r = [] then Inr v else Inl SyntaxError)"

text \<open>
  Reading a property, as the destructuring \<open>const { id, key: keyHex } = ...\<close> does on a
  value that is neither \<open>null\<close> nor \<open>undefined\<close>. In an object the last member of a name
  counts; the other values have no property called \<open>id\<close> or \<open>key\<close>.
\<close>

fun get_prop :: "jsval \<Rightarrow> jsstring \<Rightarrow> jsval" where
  "get_prop (JObj ms) k = (case map_of (rev ms) k of None \<Rightarrow> JUndefined | Some v \<Rightarrow> v)"
| "get_prop _ k = JUndefined"

section \<open>The runtime\<close>

text \<open>
  The \<open>shares\<close> table of the D1 database, as the two SQL statements of the source use it:
  a row holds the columns \<open>id\<close>, \<open>content\<close> and \<open>created_at\<close>. \<open>runs\<close> counts the
  statements executed with \<open>run()\<close>.
\<close>

type_synonym row = "jsstring \<times> jsstring \<times> nat"

record d1 =
  rows :: "row list"
  runs :: nat

text \<open>
  What the sources call and do not contain: AES-GCM of Web Crypto (\<open>aes_gcm_encrypt\<close>
  returns ciphertext and tag, \<open>aes_gcm_decrypt\<close> is \<open>None\<close> when \<open>crypto.subtle.decrypt\<close>
  rejects), SHA-256, and the behaviour of the database that depends on the schema and
  on its availability: whether an \<open>INSERT\<close> throws, whether a \<open>SELECT\<close> throws, and
  which content, if any, a bound value that is not a string selects.
\<close>

record runtime =
  aes_gcm_encrypt :: "bytes \<Rightarrow> bytes \<Rightarrow> bytes \<Rightarrow> bytes"
  aes_gcm_decrypt :: "bytes \<Rightarrow> bytes \<Rightarrow> bytes \<Rightarrow> bytes option"
  sha256 :: "bytes \<Rightarrow> bytes"
  d1_insert_fails :: "d1 \<Rightarrow> row \<Rightarrow> bool"
  d1_first_fails :: "d1 \<Rightarrow> jsval \<Rightarrow> bool"
  d1_first_other :: "d1 \<Rightarrow> jsval \<Rightarrow> jsstring option"

text \<open>
  The random source is a tape of bytes: \<open>crypto.getRandomValues(new Uint8Array(n))\<close>
  takes the next \<open>n\<close> bytes, \<open>crypto.randomUUID()\<close> takes sixteen, sets the version and
  variant bits and prints them in the groups 8-4-4-4-12.
\<close>

type_synonym rng = "nat \<Rightarrow> 8 word"

definition getRandomValues :: "nat \<Rightarrow> rng \<Rightarrow> bytes \<times> rng" where
  "getRandomValues n g = (map g [0..<n], \<lambda>i. g (i + n))"

definition uuid_bytes :: "rng \<Rightarrow> bytes" where
  "uuid_bytes g =
     (let b = fst (getRandomValues 16 g)
      in b[6 := (b ! 6 AND 0x0F) OR 0x40, 8 := (b ! 8 AND 0x3F) OR 0x80])"

definition randomUUID :: "rng \<Rightarrow> jsstring \<times> rng" where
  "randomUUID g =
     (let b = uuid_bytes g
      in (buf2hex (take 4 b) @ [0x2D] @ buf2hex (take 2 (drop 4 b)) @ [0x2D] @
          buf2hex (take 2 (drop 6 b)) @ [0x2D] @ buf2hex (take 2 (drop 8 b)) @ [0x2D] @
          buf2hex (drop 10 b),
          snd (getRandomValues 16 g)))"

section \<open>Crypto helpers\<close>

text \<open>
  \<open>crypto.subtle.importKey('raw', keyBytes, { name: 'AES-GCM' }, ...)\<close> throws a
  \<open>DataError\<close> unless the key has 128, 192 or 256 bits.
\<close>

definition importKey :: "bytes \<Rightarrow> js_error + bytes" where
  "importKey keyBytes =
     (if length keyBytes = 16 \<or> length keyBytes = 24 \<or> length keyBytes = 32
      then Inr keyBytes else Inl DataError)"

definition encryptData :: "runtime \<Rightarrow> jsstring \<Rightarrow> bytes \<Rightarrow> rng \<Rightarrow> (js_error + jsstring) \<times> rng" where
  "encryptData P plaintext keyBytes g =
     (case importKey keyBytes of
        Inl e \<Rightarrow> (Inl e, g)
      | Inr key \<Rightarrow>
          (let (iv, g') = getRandomValues 12 g;
               encrypted = aes_gcm_encrypt P key iv (enc_encode plaintext);
               combined = iv @ encrypted
           in (Inr (buf2hex combined), g')))"

definition decryptData :: "runtime \<Rightarrow> jsstring \<Rightarrow> bytes \<Rightarrow> js_error + jsstring" where
  "decryptData P hexStr keyBytes =
     (case hex2bytes hexStr of
        Inl e \<Rightarrow> Inl e
      | Inr combined \<Rightarrow>
          (let iv = take 12 combined;
               data = drop 12 combined
           in case importKey keyBytes of
                Inl e \<Rightarrow> Inl e
              | Inr key \<Rightarrow>
                  (case aes_gcm_decrypt P key iv data of
                     None \<Rightarrow> Inl DecryptionFailed
                   | Some decrypted \<Rightarrow> Inr (dec_decode decrypted))))"

definition getMasterKey :: "runtime \<Rightarrow> jsstring \<Rightarrow> bytes" where
  "getMasterKey P secret = sha256 P (enc_encode secret)"

section \<open>API\<close>

record bindings =
  DB :: d1
  SECRET_KEY :: jsstring

text \<open>\<open>c.text(body, status)\<close>; the status is 200 when none is given.\<close>

datatype response = Response nat jsstring

text \<open>
  An exception that leaves a handler is answered by the framework with status 500 and
  the body \<open>Internal Server Error\<close>.
\<close>

definition unhandled :: response where
  "unhandled = Response 500 (js ''Internal Server Error'')"

text \<open>
  The \<open>INSERT\<close> of step 3: the statement is run; it either throws, leaving the table as
  it was, or appends the row.
\<close>

definition d1_insert :: "runtime \<Rightarrow> d1 \<Rightarrow> row \<Rightarrow> js_error + d1" where
  "d1_insert P db r =
     (if d1_insert_fails P db r then Inl D1Error
      else Inr (db\<lparr>rows := rows db @ [r], runs := runs db + 1\<rparr>))"

text \<open>
  \<open>SELECT content FROM shares WHERE id = ?\<close> with \<open>first()\<close>: the content of the first
  row whose id is the bound string, \<open>null\<close> (here \<open>None\<close>) when there is none.
\<close>

definition d1_first :: "runtime \<Rightarrow> d1 \<Rightarrow> jsval \<Rightarrow> js_error + jsstring option" where
  "d1_first P db v =
     (if d1_first_fails P db v then Inl D1Error
      else Inr (case v of
                  JStr s \<Rightarrow> map_option (\<lambda>(i, c, t). c) (find (\<lambda>(i, c, t). i = s) (rows db))
                | _ \<Rightarrow> d1_first_other P db v))"

text \<open>
  \<open>app.post('/api/share')\<close> after \<open>await c.req.text()\<close>. \<open>now\<close> is the value of
  \<open>Date.now()\<close>. The result is the response and the database afterwards.
\<close>

definition share_text :: "runtime \<Rightarrow> bindings \<Rightarrow> rng \<Rightarrow> nat \<Rightarrow> jsstring \<Rightarrow> response \<times> d1" where
  "share_text P env g now text =
     (if text = [] then (Response 400 (js ''Error: Text required''), DB env)
      else if length text > 1024 * 1024
      then (Response 400 (js ''Error: Text too large (>1MB)''), DB env)
      else
        (let (ident, g1) = randomUUID g;
             (dataKey, g2) = getRandomValues 32 g1
         in case encryptData P text dataKey g2 of
              (Inl e, g3) \<Rightarrow> (unhandled, DB env)
            | (Inr encryptedContent, g3) \<Rightarrow>
                (case d1_insert P (DB env) (ident, encryptedContent, now) of
                   Inl e \<Rightarrow>
                     (Response 500 (js ''Error: Database error''),
                      (DB env)\<lparr>runs := runs (DB env) + 1\<rparr>)
                 | Inr db' \<Rightarrow>
                     (let payload = stringify_payload ident (buf2hex dataKey);
                          masterKey = getMasterKey P (SECRET_KEY env)
                      in case encryptData P payload masterKey g3 of
                           (Inl e, g4) \<Rightarrow> (unhandled, db')
                         | (Inr token, g4) \<Rightarrow> (Response 200 token, db')))))"

definition share :: "runtime \<Rightarrow> bindings \<Rightarrow> rng \<Rightarrow> nat \<Rightarrow> bytes \<Rightarrow> response \<times> d1" where
  "share P env g now body = share_text P env g now (req_text body)"

text \<open>
  \<open>app.get('/api/retrieve')\<close>. \<open>retrieve_steps\<close> is what the outer \<open>try\<close> holds after the
  token has been decrypted; whatever it throws becomes the 500 answer.
\<close>

definition retrieve_steps :: "runtime \<Rightarrow> bindings \<Rightarrow> jsstring \<Rightarrow> js_error + response" where
  "retrieve_steps P env payloadStr =
     (case json_parse payloadStr of
        Inl e \<Rightarrow> Inl e
      | Inr v \<Rightarrow>
          if v = JNull \<or> v = JUndefined then Inl TypeError
          else
            (let ident = get_prop v (js ''id'');
                 keyHex = get_prop v (js ''key'')
             in case d1_first P (DB env) ident of
                  Inl e \<Rightarrow> Inl e
                | Inr None \<Rightarrow> Inr (Response 404 (js ''Error: Not found''))
                | Inr (Some content) \<Rightarrow>
                    (case keyHex of
                       JStr keyStr \<Rightarrow>
                         (case hex2bytes keyStr of
                            Inl e \<Rightarrow> Inl e
                          | Inr keyBytes \<Rightarrow>
                              (case decryptData P content keyBytes of
                                 Inl e \<Rightarrow> Inl e
                               | Inr plain \<Rightarrow> Inr (Response 200 plain)))
                     | _ \<Rightarrow> Inl TypeError)))"

definition retrieve :: "runtime \<Rightarrow> bindings \<Rightarrow> jsstring option \<Rightarrow> response" where
  "retrieve P env token =
     (case token of
        None \<Rightarrow> Response 400 (js ''Error: Token required'')
      | Some tok \<Rightarrow>
          if tok = [] then Response 400 (js ''Error: Token required'')
          else
            (let masterKey = getMasterKey P (SECRET_KEY env)
             in case decryptData P tok masterKey of
                  Inl e \<Rightarrow> Response 400 (js ''Error: Invalid token'')
                | Inr payloadStr \<Rightarrow>
                    (case retrieve_steps P env payloadStr of
                       Inl e \<Rightarrow> Response 500 (js ''Error: Decryption failed or system error'')
                     | Inr r \<Rightarrow> r)))"

section \<open>Notions used in the statements\<close>

text \<open>
  Unicode scalar values; strings without unpaired surrogates; strings that do not begin
  with U+FEFF; and the code units that \<open>JSON.stringify\<close> copies unchanged and UTF-8
  writes in one byte (printable ASCII except the quote and the backslash).
\<close>

definition is_scalar :: "nat \<Rightarrow> bool" where
  "is_scalar cp = (cp < 0x110000 \<and> \<not> (0xD800 \<le> cp \<and> cp \<le> 0xDFFF))"

fun well_formed_utf16 :: "jsstring \<Rightarrow> bool" where
  "well_formed_utf16 [] = True"
| "well_formed_utf16 [a] = (\<not> is_high_surrogate a \<and> \<not> is_low_surrogate a)"
| "well_formed_utf16 (a # b # rest) =
     (if is_high_surrogate a then is_low_surrogate b \<and> well_formed_utf16 rest
      else \<not> is_low_surrogate a \<and> well_formed_utf16 (b # rest))"

definition no_bom :: "jsstring \<Rightarrow> bool" where
  "no_bom s = (case s of [] \<Rightarrow> True | c # _ \<Rightarrow> c \<noteq> 0xFEFF)"

definition plain_unit :: "16 word \<Rightarrow> bool" where
  "plain_unit c = (0x20 \<le> c \<and> c < 0x80 \<and> c \<noteq> 0x22 \<and> c \<noteq> 0x5C)"

text \<open>
  What one call of the share handler draws from the tape \<open>g\<close>, in the order of the
  source: the identifier, the data key, the nonce of the content and, after the
  \<open>INSERT\<close>, the nonce of the token. From these, the content column, the row and the
  token of a call that succeeds.
\<close>

definition draw_id :: "rng \<Rightarrow> jsstring" where
  "draw_id g = fst (randomUUID g)"

definition draw_key :: "rng \<Rightarrow> bytes" where
  "draw_key g = fst (getRandomValues 32 (snd (randomUUID g)))"

definition draw_iv1 :: "rng \<Rightarrow> bytes" where
  "draw_iv1 g = fst (getRandomValues 12 (snd (getRandomValues 32 (snd (randomUUID g)))))"

definition draw_iv2 :: "rng \<Rightarrow> bytes" where
  "draw_iv2 g =
     fst (getRandomValues 12 (snd (getRandomValues 12
       (snd (getRandomValues 32 (snd (randomUUID g)))))))"

definition sealed_bytes :: "runtime \<Rightarrow> rng \<Rightarrow> jsstring \<Rightarrow> bytes" where
  "sealed_bytes P g text =
     draw_iv1 g @ aes_gcm_encrypt P (draw_key g) (draw_iv1 g) (enc_encode text)"

definition share_row :: "runtime \<Rightarrow> rng \<Rightarrow> nat \<Rightarrow> jsstring \<Rightarrow> row" where
  "share_row P g now text = (draw_id g, buf2hex (sealed_bytes P g text), now)"

definition share_token :: "runtime \<Rightarrow> jsstring \<Rightarrow> rng \<Rightarrow> jsstring" where
  "share_token P secret g =
     buf2hex (draw_iv2 g @
       aes_gcm_encrypt P (getMasterKey P secret) (draw_iv2 g)
         (enc_encode (stringify_payload (draw_id g) (buf2hex (draw_key g)))))"

text \<open>
  What is assumed of the cryptographic primitives: decryption inverts encryption under
  a 256-bit key and a 96-bit nonce; the digest has 256 bits; input shorter than the
  128-bit tag is rejected; and a sealed blob, nonce included, with one byte replaced by
  another value is rejected (as AES-GCM does whenever its hash key is not zero).
\<close>

definition aead_correct :: "runtime \<Rightarrow> bool" where
  "aead_correct P =
     (\<forall>key iv plain. length key = 32 \<and> length iv = 12 \<longrightarrow>
        aes_gcm_decrypt P key iv (aes_gcm_encrypt P key iv plain) = Some plain)"

definition digest_256 :: "runtime \<Rightarrow> bool" where
  "digest_256 P = (\<forall>m. length (sha256 P m) = 32)"

definition tag_128 :: "runtime \<Rightarrow> bool" where
  "tag_128 P = (\<forall>key iv data. length data < 16 \<longrightarrow> aes_gcm_decrypt P key iv data = None)"




text \<open>
  The databases that calls of the share handler can produce from the empty table. The
  retrieve handler only reads.
\<close>

inductive reachable :: "runtime \<Rightarrow> jsstring \<Rightarrow> d1 \<Rightarrow> bool" for P secret where
  start: "reachable P secret \<lparr>rows = [], runs = 0\<rparr>"
| after_share:
    "reachable P secret db \<Longrightarrow>
     reachable P secret (snd (share P \<lparr>DB = db, SECRET_KEY = secret\<rparr> g now body))"


section \<open>A small runtime to run the handlers on\<close>

text \<open>
  A checksum cipher with a 16-byte tag and a checksum digest. They have the properties
  assumed above and make the statements below concrete; nothing else is claimed of
  them.
\<close>

definition xor_sum :: "bytes \<Rightarrow> 8 word" where
  "xor_sum bs = foldr (XOR) bs 0"

definition ref_tag :: "bytes \<Rightarrow> bytes \<Rightarrow> bytes \<Rightarrow> bytes" where
  "ref_tag key iv plain = replicate 16 (xor_sum (key @ iv @ plain))"

definition ref_encrypt :: "bytes \<Rightarrow> bytes \<Rightarrow> bytes \<Rightarrow> bytes" where
  "ref_encrypt key iv plain = plain @ ref_tag key iv plain"

definition ref_decrypt :: "bytes \<Rightarrow> bytes \<Rightarrow> bytes \<Rightarrow> bytes option" where
  "ref_decrypt key iv data =
     (if length data < 16 then None
      else if drop (length data - 16) data = ref_tag key iv (take (length data - 16) data)
      then Some (take (length data - 16) data)
      else None)"

definition ref_digest :: "bytes \<Rightarrow> bytes" where
  "ref_digest m = replicate 32 (xor_sum m)"

definition ref_runtime :: runtime where
  "ref_runtime =
     \<lparr>aes_gcm_encrypt = ref_encrypt, aes_gcm_decrypt = ref_decrypt, sha256 = ref_digest,
      d1_insert_fails = (\<lambda>db r. False), d1_first_fails = (\<lambda>db v. False),
      d1_first_other = (\<lambda>db v. None)\<rparr>"

definition failing_runtime :: runtime where
  "failing_runtime = ref_runtime\<lparr>d1_insert_fails := (\<lambda>db r. True)\<rparr>"

definition empty_db :: d1 where
  "empty_db = \<lparr>rows = [], runs = 0\<rparr>"

definition ref_env :: bindings where
  "ref_env = \<lparr>DB = empty_db, SECRET_KEY = js ''secret''\<rparr>"

definition ref_rng :: rng where
  "ref_rng = (\<lambda>i. of_nat i)"


text \<open>
  A tape that agrees with \<open>ref_rng\<close> on the sixteen bytes of the identifier and on both
  nonces, and differs from it in the first byte of the data key.
\<close>

definition key_rng :: rng where
  "key_rng = ref_rng(16 := 0xFF)"

text \<open>
  A token that was not issued by the share handler: the text \<open>not json\<close> sealed under
  the master key of \<open>ref_env\<close>.
\<close>

definition forged_token :: jsstring where
  "forged_token =
     buf2hex (replicate 12 0 @
       ref_encrypt (getMasterKey ref_runtime (js ''secret'')) (replicate 12 0)
         (enc_encode (js ''not json'')))"



section \<open>The hex codec inverts itself\<close>

lemma nibble_cases:
  "k < 16 \<Longrightarrow> k = 15 \<or> k = 14 \<or> k = 13 \<or> k = 12 \<or> k = 11 \<or> k = 10 \<or> k = 9 \<or> k = 8 \<or>
     k = 7 \<or> k = 6 \<or> k = 5 \<or> k = 4 \<or> k = 3 \<or> k = 2 \<or> k = 1 \<or> k = (0::nat)"
  by (simp add: numeral_eq_Suc less_Suc_eq) blast

lemma hex_digit_facts:
  assumes "n < 16"
  shows "hex_value (hex_digit n) = Some n \<and> \<not> is_line_terminator (hex_digit n) \<and>
    \<not> is_js_whitespace (hex_digit n) \<and> hex_digit n \<noteq> 0x2B \<and> hex_digit n \<noteq> 0x2D \<and>
    hex_digit n \<noteq> 0x78 \<and> hex_digit n \<noteq> 0x58 \<and> plain_unit (hex_digit n)"
  using nibble_cases [OF assms]
  by (elim disjE; simp add: hex_digit_def hex_value_def is_line_terminator_def is_js_whitespace_def plain_unit_def)

lemma nibbles_less: "unat (x :: 8 word) div 16 < 16" "unat x mod 16 < 16"
proof -
  have "unat x < 256" using unsigned_less [of x, where 'a = nat] by simp
  then show "unat x div 16 < 16" by (simp add: less_mult_imp_div_less)
  show "unat x mod 16 < 16" by simp
qed

lemma parseInt16_byte2hex: "parseInt16 (byte2hex x) = Some (int (unat x))"
  using hex_digit_facts [OF nibbles_less(1) [of x]] hex_digit_facts [OF nibbles_less(2) [of x]]
  by (simp add: parseInt16_def byte2hex_def digits_value_def Let_def)

lemma match_chunks_byte2hex: "match_chunks (byte2hex x @ s) = byte2hex x # match_chunks s"
  using hex_digit_facts [OF nibbles_less(1) [of x]] hex_digit_facts [OF nibbles_less(2) [of x]]
  by (simp add: byte2hex_def)

lemma match_chunks_buf2hex: "match_chunks (buf2hex bs) = map byte2hex bs"
  by (induction bs) (simp_all add: buf2hex_def match_chunks_byte2hex)

lemma hex2bytes_buf2hex: "bs \<noteq> [] \<Longrightarrow> hex2bytes (buf2hex bs) = Inr bs"
  by (cases bs) (simp_all add: hex2bytes_def match_pairs_def match_chunks_buf2hex
      parseInt16_byte2hex to_uint8_def map_idI)

lemma plain_buf2hex: "\<forall>c \<in> set (buf2hex bs). plain_unit c"
  using hex_digit_facts [OF nibbles_less(1)] hex_digit_facts [OF nibbles_less(2)]
  by (induction bs) (simp_all add: buf2hex_def byte2hex_def)

lemma length_buf2hex: "length (buf2hex bs) = 2 * length bs"
  by (induction bs) (simp_all add: buf2hex_def byte2hex_def)

section \<open>The text codec\<close>

lemma add_mod_cancel: "a < m \<Longrightarrow> (k * m + a) mod m = (a::nat)"
  by simp

lemma cont_mod: "b < 64 \<Longrightarrow> (128 + b) mod 64 = (b::nat)"
  using add_mod_cancel [of b 64 2] by simp

lemma utf8_lead1: "a < 128 \<Longrightarrow> utf8_lead a rest = (a, rest)"
  by (simp add: utf8_lead_def)

lemma utf8_lead2:
  assumes "2 \<le> a" "a < 32" "b < 64"
  shows "utf8_lead (192 + a) ((128 + b) # rest) = (64 * a + b, rest)"
proof -
  have "(192 + a) mod 32 = a" using add_mod_cancel [of a 32 6] assms by simp
  then show ?thesis using assms by (auto simp: utf8_lead_def cont_mod)
qed

lemma utf8_lead3:
  assumes "a < 16" "b < 64" "c < 64" "a = 0 \<longrightarrow> 32 \<le> b" "a = 13 \<longrightarrow> b < 32"
  shows "utf8_lead (224 + a) ((128 + b) # (128 + c) # rest) = (4096 * a + 64 * b + c, rest)"
proof -
  have "(224 + a) mod 16 = a" using add_mod_cancel [of a 16 14] assms by simp
  then show ?thesis using assms
    by (auto simp: utf8_lead_def cont_mod numeral_2_eq_2)
qed

lemma utf8_lead4:
  assumes "a < 5" "b < 64" "c < 64" "d < 64" "a = 0 \<longrightarrow> 16 \<le> b" "a = 4 \<longrightarrow> b < 16"
  shows "utf8_lead (240 + a) ((128 + b) # (128 + c) # (128 + d) # rest)
           = (262144 * a + 4096 * b + 64 * c + d, rest)"
proof -
  have "(240 + a) mod 8 = a" using add_mod_cancel [of a 8 30] assms by simp
  then show ?thesis using assms
    by (auto simp: utf8_lead_def cont_mod numeral_3_eq_3)
qed

lemma utf8_decode_encode_scalar:
  assumes "is_scalar cp"
  shows "utf8_decode (utf8_encode_scalar cp @ rest) = cp # utf8_decode rest"
proof -
  have lt: "cp < 0x110000" and ns: "cp < 0xD800 \<or> 0xDFFF < cp"
    using assms by (auto simp: is_scalar_def)
  define d where "d = cp mod 64"
  define q where "q = cp div 64"
  define c where "c = q mod 64"
  define r where "r = q div 64"
  define b where "b = r mod 64"
  define a where "a = r div 64"
  have e1: "cp = 64 * q + d" and d: "d < 64" by (simp_all add: d_def q_def)
  have e2: "q = 64 * r + c" and c: "c < 64" by (simp_all add: c_def r_def)
  have e3: "r = 64 * a + b" and b: "b < 64" by (simp_all add: a_def b_def)
  have r: "cp div 4096 = r" unfolding r_def q_def by (simp add: div_mult2_eq)
  have a: "cp div 262144 = a" unfolding a_def r_def q_def by (simp add: div_mult2_eq)
  have rb: "(cp div 4096) mod 64 = b" using r by (simp add: b_def)
  consider "cp < 0x80" | "0x80 \<le> cp" "cp < 0x800" | "0x800 \<le> cp" "cp < 0x10000"
    | "0x10000 \<le> cp"
    by linarith
  then show ?thesis
  proof cases
    case 1
    then show ?thesis by (simp add: utf8_encode_scalar_def utf8_lead1)
  next
    case 2
    have enc: "utf8_encode_scalar cp = [192 + q, 128 + d]"
      using 2 by (simp add: utf8_encode_scalar_def q_def d_def)
    have "2 \<le> q" "q < 32" using 2 e1 d by arith+
    then have "utf8_lead (192 + q) ((128 + d) # rest) = (cp, rest)"
      using utf8_lead2 [of q d rest] d e1 by simp
    then show ?thesis by (simp add: enc)
  next
    case 3
    have enc: "utf8_encode_scalar cp = [224 + r, 128 + c, 128 + d]"
      using 3 r by (simp add: utf8_encode_scalar_def q_def [symmetric] c_def d_def)
    have "r < 16" "r = 0 \<longrightarrow> 32 \<le> c" "r = 13 \<longrightarrow> c < 32"
      using 3 ns e1 e2 c d by arith+
    then have "utf8_lead (224 + r) ((128 + c) # (128 + d) # rest) = (cp, rest)"
      using utf8_lead3 [of r c d rest] c d e1 e2 by simp
    then show ?thesis by (simp add: enc)
  next
    case 4
    have enc: "utf8_encode_scalar cp = [240 + a, 128 + b, 128 + c, 128 + d]"
      using 4 a rb by (simp add: utf8_encode_scalar_def q_def [symmetric] c_def d_def)
    have "a < 5" "a = 0 \<longrightarrow> 16 \<le> b" "a = 4 \<longrightarrow> b < 16"
      using 4 lt e1 e2 e3 b c d by arith+
    then have "utf8_lead (240 + a) ((128 + b) # (128 + c) # (128 + d) # rest) = (cp, rest)"
      using utf8_lead4 [of a b c d rest] b c d e1 e2 e3 by simp
    then show ?thesis by (simp add: enc)
  qed
qed

lemma unat16_less: "unat (a :: 16 word) < 65536"
  using unsigned_less [of a, where 'a = nat] by simp

lemma is_scalar_replacement: "is_scalar 0xFFFD"
  by (simp add: is_scalar_def)

lemma is_scalar_unit:
  "\<not> is_high_surrogate a \<Longrightarrow> \<not> is_low_surrogate a \<Longrightarrow> is_scalar (unat a)"
  using unat16_less [of a]
  unfolding is_scalar_def is_high_surrogate_def is_low_surrogate_def by linarith

lemma is_scalar_pair:
  "is_high_surrogate a \<Longrightarrow> is_low_surrogate b \<Longrightarrow>
   is_scalar (0x10000 + (unat a - 0xD800) * 0x400 + (unat b - 0xDC00))"
  unfolding is_scalar_def is_high_surrogate_def is_low_surrogate_def by linarith

lemma utf16_scalars_scalar: "\<forall>cp \<in> set (utf16_scalars s). is_scalar cp"
  by (induction s rule: utf16_scalars.induct)
     (simp_all add: is_scalar_replacement is_scalar_unit is_scalar_pair)

lemma utf8_decode_encode_all:
  "\<forall>cp \<in> set cps. is_scalar cp \<Longrightarrow> utf8_decode (concat (map utf8_encode_scalar cps)) = cps"
  by (induction cps) (simp_all add: utf8_decode_encode_scalar)

lemma utf8_encode_scalar_bytes:
  assumes "is_scalar cp" "x \<in> set (utf8_encode_scalar cp)"
  shows "x < 256"
proof -
  have "cp < 0x110000" using assms(1) by (simp add: is_scalar_def)
  moreover have "cp < 0x800 \<Longrightarrow> cp div 64 < 32" by simp
  moreover have "cp < 0x10000 \<Longrightarrow> cp div 4096 < 16" by simp
  moreover have "cp < 0x110000 \<Longrightarrow> cp div 262144 < 5" by simp
  moreover have "cp mod 64 < 64" "(cp div 64) mod 64 < 64" "(cp div 4096) mod 64 < 64" by simp_all
  ultimately show ?thesis using assms(2)
    by (auto simp: utf8_encode_scalar_def split: if_splits)
qed

lemma unat_of_nat_bytes:
  "\<forall>x \<in> set xs. x < 256 \<Longrightarrow> map unat (map of_nat xs :: 8 word list) = xs"
  by (induction xs) (simp_all add: unat_of_nat)

lemma dec_enc:
  "dec_decode (enc_encode s) = concat (map utf16_units (strip_bom (utf16_scalars s)))"
proof -
  have "\<forall>x \<in> set (concat (map utf8_encode_scalar (utf16_scalars s))). x < 256"
    using utf16_scalars_scalar [of s] utf8_encode_scalar_bytes by auto
  then have "map unat (enc_encode s) = concat (map utf8_encode_scalar (utf16_scalars s))"
    unfolding enc_encode_def by (rule unat_of_nat_bytes)
  then show ?thesis
    using utf16_scalars_scalar [of s] by (simp add: dec_decode_def utf8_decode_encode_all)
qed

lemma utf16_units_pair:
  assumes "is_high_surrogate a" "is_low_surrogate b"
  shows "utf16_units (0x10000 + (unat a - 0xD800) * 0x400 + (unat b - 0xDC00)) = [a, b]"
proof -
  define x where "x = unat a - 0xD800"
  define y where "y = unat b - 0xDC00"
  have y: "y < 0x400" and ua: "0xD800 + x = unat a" and ub: "0xDC00 + y = unat b"
    using assms by (auto simp: x_def y_def is_high_surrogate_def is_low_surrogate_def)
  have d: "(x * 0x400 + y) div 0x400 = x" and m: "(x * 0x400 + y) mod 0x400 = y"
    using y by simp_all
  show ?thesis
    using d m ua ub by (simp add: utf16_units_def x_def [symmetric] y_def [symmetric])
qed

lemma utf16_units_single: "utf16_units (unat (a :: 16 word)) = [a]"
  using unat16_less [of a] by (simp add: utf16_units_def)

lemma utf16_units_scalars:
  "well_formed_utf16 s \<Longrightarrow> concat (map utf16_units (utf16_scalars s)) = s"
  by (induction s rule: utf16_scalars.induct)
     (auto simp: utf16_units_pair utf16_units_single)

lemma strip_bom_scalars: "no_bom s \<Longrightarrow> strip_bom (utf16_scalars s) = utf16_scalars s"
proof (cases s rule: utf16_scalars.cases)
  case 1
  then show ?thesis by (simp add: strip_bom_def)
next
  case (2 a)
  assume "no_bom s"
  with 2 have "a \<noteq> 0xFEFF" by (simp add: no_bom_def)
  then have "unat a \<noteq> 0xFEFF" by (simp add: word_unat_eq_iff)
  with 2 show ?thesis by (simp add: strip_bom_def)
next
  case (3 a b rest)
  assume "no_bom s"
  with 3 have "a \<noteq> 0xFEFF" by (simp add: no_bom_def)
  then have "unat a \<noteq> 0xFEFF" by (simp add: word_unat_eq_iff)
  with 3 show ?thesis by (simp add: strip_bom_def)
qed

lemma text_roundtrip:
  "well_formed_utf16 s \<Longrightarrow> no_bom s \<Longrightarrow> dec_decode (enc_encode s) = s"
  by (simp add: dec_enc strip_bom_scalars utf16_units_scalars)

section \<open>The payload survives \<open>JSON.stringify\<close> and \<open>JSON.parse\<close>\<close>

lemma plain_unit_unat: "plain_unit c \<Longrightarrow> unat c < 128"
  by (simp add: plain_unit_def word_less_nat_alt)

lemma plain_not_surrogate:
  "plain_unit c \<Longrightarrow> \<not> is_high_surrogate c \<and> \<not> is_low_surrogate c"
  using plain_unit_unat [of c] by (simp add: is_high_surrogate_def is_low_surrogate_def)

lemma quote_unit_plain: "plain_unit c \<Longrightarrow> quote_unit c = [c]"
  by (auto simp: quote_unit_def plain_unit_def)

lemma quote_units_plain: "\<forall>c \<in> set s. plain_unit c \<Longrightarrow> quote_units s = s"
  by (induction s rule: quote_units.induct)
     (simp_all add: plain_not_surrogate quote_unit_plain)

lemma parse_chars_plain:
  "\<forall>c \<in> set s. plain_unit c \<Longrightarrow> parse_chars (s @ 0x22 # rest) = Some (s, rest)"
proof (induction s)
  case Nil
  then show ?case by simp
next
  case (Cons c s)
  then have "c \<noteq> 0x22" "c \<noteq> 0x5C" "\<not> c < 0x20"
    by (auto simp: plain_unit_def)
  with Cons show ?case by simp
qed

lemma well_formed_plain: "\<forall>c \<in> set s. plain_unit c \<Longrightarrow> well_formed_utf16 s"
  by (induction s rule: well_formed_utf16.induct) (simp_all add: plain_not_surrogate)

lemma json_quote_plain: "\<forall>c \<in> set s. plain_unit c \<Longrightarrow> json_quote s = 0x22 # s @ [0x22]"
  by (simp add: json_quote_def quote_units_plain)

lemma plain_names:
  "\<forall>c \<in> set (js ''id''). plain_unit c" "\<forall>c \<in> set (js ''key''). plain_unit c"
  by (simp_all add: js_def plain_unit_def)

lemma stringify_payload_plain:
  assumes "\<forall>c \<in> set i. plain_unit c" "\<forall>c \<in> set k. plain_unit c"
  shows "stringify_payload i k =
    0x7B # 0x22 # 0x69 # 0x64 # 0x22 # 0x3A # 0x22 # i @
    0x22 # 0x2C # 0x22 # 0x6B # 0x65 # 0x79 # 0x22 # 0x3A # 0x22 # k @ [0x22, 0x7D]"
  by (simp add: stringify_payload_def json_quote_plain [OF assms(1)] json_quote_plain [OF assms(2)]
      json_quote_plain [OF plain_names(1)] json_quote_plain [OF plain_names(2)])
     (simp add: js_def)

lemma skip_ws_nonws: "\<not> is_json_ws c \<Longrightarrow> skip_ws (c # r) = c # r"
  by (simp add: skip_ws_def)

lemma parse_payload:
  assumes "\<forall>c \<in> set i. plain_unit c" "\<forall>c \<in> set k. plain_unit c"
  shows "parse_value (Suc (Suc (Suc (Suc m))))
    (0x7B # 0x22 # 0x69 # 0x64 # 0x22 # 0x3A # 0x22 # i @
     0x22 # 0x2C # 0x22 # 0x6B # 0x65 # 0x79 # 0x22 # 0x3A # 0x22 # k @ [0x22, 0x7D])
    = Some (JObj [(js ''id'', JStr i), (js ''key'', JStr k)], [])"
proof -
  have k: "parse_chars (k @ [0x22, 0x7D]) = Some (k, [0x7D])"
    using parse_chars_plain [OF assms(2)] by simp
  have i: "\<And>rest. parse_chars (i @ 0x22 # rest) = Some (i, rest)"
    using parse_chars_plain [OF assms(1)] by simp
  show ?thesis
    by (simp add: skip_ws_nonws is_json_ws_def i k js_def)
qed

lemma json_parse_payload:
  assumes "\<forall>c \<in> set i. plain_unit c" "\<forall>c \<in> set k. plain_unit c"
  shows "json_parse (stringify_payload i k) = Inr (JObj [(js ''id'', JStr i), (js ''key'', JStr k)])"
proof -
  obtain m where m: "2 * length (stringify_payload i k) + 2 = Suc (Suc (Suc (Suc m)))"
    by (simp add: stringify_payload_plain [OF assms])
  have sw: "skip_ws (stringify_payload i k) = stringify_payload i k"
    by (simp add: stringify_payload_plain [OF assms] skip_ws_nonws is_json_ws_def)
  have pv: "parse_value (Suc (Suc (Suc (Suc m)))) (stringify_payload i k)
      = Some (JObj [(js ''id'', JStr i), (js ''key'', JStr k)], [])"
    using parse_payload [OF assms, of m] by (simp only: stringify_payload_plain [OF assms])
  show ?thesis
    by (simp only: json_parse_def m sw pv) (simp add: skip_ws_def)
qed

section \<open>One call of each handler\<close>

lemma getRandomValues_length: "length (fst (getRandomValues n g)) = n"
  by (simp add: getRandomValues_def)

lemma draw_lengths:
  "length (draw_key g) = 32" "length (draw_iv1 g) = 12" "length (draw_iv2 g) = 12"
  by (simp_all add: draw_key_def draw_iv1_def draw_iv2_def getRandomValues_length)

lemma plain_dash: "plain_unit 0x2D"
  by (simp add: plain_unit_def)

lemma plain_draw_id: "\<forall>c \<in> set (draw_id g). plain_unit c"
  using plain_buf2hex plain_dash
  by (auto simp: draw_id_def randomUUID_def Let_def)

lemma ascii_not_surrogate:
  "c < 0x80 \<Longrightarrow> \<not> is_high_surrogate c \<and> \<not> is_low_surrogate c"
  by (simp add: is_high_surrogate_def is_low_surrogate_def word_less_nat_alt)

lemma well_formed_ascii: "\<forall>c \<in> set s. c < 0x80 \<Longrightarrow> well_formed_utf16 s"
  by (induction s rule: well_formed_utf16.induct) (simp_all add: ascii_not_surrogate)

lemma no_bom_ascii: "\<forall>c \<in> set s. c < 0x80 \<Longrightarrow> no_bom s"
  by (cases s) (auto simp: no_bom_def)

lemma ascii_roundtrip: "\<forall>c \<in> set s. c < 0x80 \<Longrightarrow> dec_decode (enc_encode s) = s"
  by (simp add: text_roundtrip well_formed_ascii no_bom_ascii)

lemma ascii_payload:
  assumes "\<forall>c \<in> set i. plain_unit c" "\<forall>c \<in> set k. plain_unit c"
  shows "\<forall>c \<in> set (stringify_payload i k). c < 0x80"
  using assms by (auto simp: stringify_payload_plain [OF assms] plain_unit_def)

lemma payload_roundtrip:
  "dec_decode (enc_encode (stringify_payload (draw_id g) (buf2hex (draw_key g))))
     = stringify_payload (draw_id g) (buf2hex (draw_key g))"
  by (rule ascii_roundtrip) (rule ascii_payload [OF plain_draw_id plain_buf2hex])

lemma payload_parse:
  "json_parse (stringify_payload (draw_id g) (buf2hex (draw_key g)))
     = Inr (JObj [(js ''id'', JStr (draw_id g)), (js ''key'', JStr (buf2hex (draw_key g)))])"
  by (rule json_parse_payload [OF plain_draw_id plain_buf2hex])

lemma importKey_32: "length k = 32 \<Longrightarrow> importKey k = Inr k"
  by (simp add: importKey_def)

lemma encryptData_32:
  "length k = 32 \<Longrightarrow>
   encryptData P plaintext k g =
     (Inr (buf2hex (fst (getRandomValues 12 g) @
        aes_gcm_encrypt P k (fst (getRandomValues 12 g)) (enc_encode plaintext))),
      snd (getRandomValues 12 g))"
  by (simp add: encryptData_def importKey_32 split_beta Let_def)

lemma share_text_accepted:
  assumes "digest_256 P" "text \<noteq> []" "length text \<le> 1024 * 1024"
  shows "share_text P env g now text =
     (if d1_insert_fails P (DB env) (share_row P g now text)
      then (Response 500 (js ''Error: Database error''), (DB env)\<lparr>runs := runs (DB env) + 1\<rparr>)
      else (Response 200 (share_token P (SECRET_KEY env) g),
            (DB env)\<lparr>rows := rows (DB env) @ [share_row P g now text],
                      runs := runs (DB env) + 1\<rparr>))"
proof -
  have mk: "length (getMasterKey P (SECRET_KEY env)) = 32"
    using assms(1) by (simp add: digest_256_def getMasterKey_def)
  have dk: "length (fst (getRandomValues 32 (snd (randomUUID g)))) = 32"
    by (simp add: getRandomValues_length)
  show ?thesis
    using assms(2,3)
    by (simp add: share_text_def split_beta Let_def encryptData_32 [OF mk] encryptData_32 [OF dk]
        d1_insert_def share_row_def share_token_def sealed_bytes_def
        draw_id_def draw_key_def draw_iv1_def draw_iv2_def)
qed

lemma decryptData_sealed:
  assumes "aead_correct P" "length k = 32" "length iv = 12"
  shows "decryptData P (buf2hex (iv @ aes_gcm_encrypt P k iv plain)) k = Inr (dec_decode plain)"
proof -
  have "iv @ aes_gcm_encrypt P k iv plain \<noteq> []" using assms(3) by auto
  then have h: "hex2bytes (buf2hex (iv @ aes_gcm_encrypt P k iv plain))
      = Inr (iv @ aes_gcm_encrypt P k iv plain)"
    by (rule hex2bytes_buf2hex)
  have d: "aes_gcm_decrypt P k iv (aes_gcm_encrypt P k iv plain) = Some plain"
    using assms by (simp add: aead_correct_def)
  show ?thesis
    by (simp add: decryptData_def h assms(3) importKey_32 [OF assms(2)] d)
qed

lemma master_key_length: "digest_256 P \<Longrightarrow> length (getMasterKey P secret) = 32"
  by (simp add: digest_256_def getMasterKey_def)

lemma open_share_token:
  assumes "aead_correct P" "digest_256 P"
  shows "decryptData P (share_token P secret g) (getMasterKey P secret)
     = Inr (stringify_payload (draw_id g) (buf2hex (draw_key g)))"
  unfolding share_token_def
  by (simp add: decryptData_sealed [OF assms(1) master_key_length [OF assms(2)] draw_lengths(3)]
      payload_roundtrip)

lemma share_token_nonempty: "share_token P secret g \<noteq> []"
proof -
  have "length (share_token P secret g) \<noteq> 0"
    by (simp add: share_token_def length_buf2hex draw_lengths)
  then show ?thesis by auto
qed

lemma payload_props:
  "get_prop (JObj [(js ''id'', JStr i), (js ''key'', JStr k)]) (js ''id'') = JStr i"
  "get_prop (JObj [(js ''id'', JStr i), (js ''key'', JStr k)]) (js ''key'') = JStr k"
  by (simp_all add: js_def)

lemma draw_key_hex: "hex2bytes (buf2hex (draw_key g)) = Inr (draw_key g)"
proof -
  have "draw_key g \<noteq> []" using draw_lengths(1) [of g] by auto
  then show ?thesis by (rule hex2bytes_buf2hex)
qed

lemma retrieve_steps_payload:
  "retrieve_steps P env (stringify_payload (draw_id g) (buf2hex (draw_key g))) =
     (case d1_first P (DB env) (JStr (draw_id g)) of
        Inl e \<Rightarrow> Inl e
      | Inr None \<Rightarrow> Inr (Response 404 (js ''Error: Not found''))
      | Inr (Some content) \<Rightarrow>
          (case decryptData P content (draw_key g) of
             Inl e \<Rightarrow> Inl e
           | Inr plain \<Rightarrow> Inr (Response 200 plain)))"
  by (simp add: retrieve_steps_def payload_parse payload_props draw_key_hex Let_def
      del: get_prop.simps split: sum.split option.split)

lemma retrieve_share_token:
  assumes "aead_correct P" "digest_256 P"
  shows "retrieve P env (Some (share_token P (SECRET_KEY env) g)) =
     (case d1_first P (DB env) (JStr (draw_id g)) of
        Inl e \<Rightarrow> Response 500 (js ''Error: Decryption failed or system error'')
      | Inr None \<Rightarrow> Response 404 (js ''Error: Not found'')
      | Inr (Some content) \<Rightarrow>
          (case decryptData P content (draw_key g) of
             Inl e \<Rightarrow> Response 500 (js ''Error: Decryption failed or system error'')
           | Inr plain \<Rightarrow> Response 200 plain))"
  by (simp add: retrieve_def share_token_nonempty open_share_token [OF assms]
      retrieve_steps_payload Let_def split: sum.split option.split)

lemma share_text_valid:
  assumes "text \<noteq> []" "length text \<le> 1024 * 1024"
  shows "share_text P env g now text =
     (if d1_insert_fails P (DB env) (share_row P g now text)
      then (Response 500 (js ''Error: Database error''), (DB env)\<lparr>runs := runs (DB env) + 1\<rparr>)
      else (case fst (encryptData P (stringify_payload (draw_id g) (buf2hex (draw_key g)))
                    (getMasterKey P (SECRET_KEY env))
                    (snd (getRandomValues 12 (snd (getRandomValues 32 (snd (randomUUID g))))))) of
              Inl e \<Rightarrow> unhandled
            | Inr token \<Rightarrow> Response 200 token,
            (DB env)\<lparr>rows := rows (DB env) @ [share_row P g now text],
                      runs := runs (DB env) + 1\<rparr>))"
proof -
  have dk: "length (fst (getRandomValues 32 (snd (randomUUID g)))) = 32"
    by (simp add: getRandomValues_length)
  show ?thesis
    using assms
    by (simp add: share_text_def split_beta Let_def encryptData_32 [OF dk]
        d1_insert_def share_row_def sealed_bytes_def
        draw_id_def draw_key_def draw_iv1_def split: sum.split prod.split)
qed

lemma d1_first_absent:
  assumes "\<not> d1_first_fails P db (JStr ident)" "ident \<notin> fst ` set (rows db)"
  shows "d1_first P db (JStr ident) = Inr None"
proof -
  have "find (\<lambda>(i, c, t). i = ident) (rows db) = None"
    using assms(2) by (force simp: find_None_iff)
  then show ?thesis using assms(1) by (simp add: d1_first_def)
qed

lemma parse_value_literal:
  "0 < n \<Longrightarrow> c \<noteq> 0x7B \<Longrightarrow> c \<noteq> 0x5B \<Longrightarrow> c \<noteq> 0x22 \<Longrightarrow>
   parse_value n (c # r) = parse_literal (c # r)"
  by (cases n) simp_all

lemma js_not_json: "json_parse (js ''not json'') = Inl SyntaxError"
  by (simp add: json_parse_def js_def skip_ws_def is_json_ws_def parse_value_literal
      parse_literal_def parse_number_def parse_int_part_def parse_digits_def is_digit_def)

section \<open>The small runtime has the assumed properties\<close>

lemma ref_aead_correct: "aead_correct ref_runtime"
  by (simp add: aead_correct_def ref_runtime_def ref_decrypt_def ref_encrypt_def ref_tag_def)

lemma ref_digest_256: "digest_256 ref_runtime"
  by (simp add: digest_256_def ref_runtime_def ref_digest_def)

lemma ref_tag_128: "tag_128 ref_runtime"
  by (simp add: tag_128_def ref_runtime_def ref_decrypt_def)











lemma ref_insert_ok: "\<not> d1_insert_fails ref_runtime db r"
  by (simp add: ref_runtime_def)

lemma ref_first_ok: "\<not> d1_first_fails ref_runtime db v"
  by (simp add: ref_runtime_def)

lemma forged_token_opens:
  "decryptData ref_runtime forged_token (getMasterKey ref_runtime (SECRET_KEY ref_env))
     = Inr (js ''not json'')"
proof -
  have a: "\<forall>c \<in> set (js ''not json''). c < 0x80" by (simp add: js_def)
  have k: "length (getMasterKey ref_runtime (js ''secret'')) = 32"
    by (rule master_key_length [OF ref_digest_256])
  have e: "ref_encrypt = aes_gcm_encrypt ref_runtime" by (simp add: ref_runtime_def)
  have "decryptData ref_runtime forged_token (getMasterKey ref_runtime (js ''secret''))
     = Inr (dec_decode (enc_encode (js ''not json'')))"
    unfolding forged_token_def e
    by (rule decryptData_sealed [OF ref_aead_correct k]) simp
  then show ?thesis by (simp add: ascii_roundtrip [OF a] ref_env_def)
qed

lemma forged_token_nonempty: "forged_token \<noteq> []"
proof -
  have "length forged_token \<noteq> 0" by (simp add: forged_token_def length_buf2hex)
  then show ?thesis by auto
qed

section \<open>Lookups, identifiers and tokens\<close>

lemma hex2bytes_length:
  "hex2bytes s = Inr bs \<Longrightarrow> length bs = length (match_chunks s)"
  by (auto simp: hex2bytes_def match_pairs_def split: list.splits)

lemma hex2bytes_null: "match_chunks s = [] \<Longrightarrow> hex2bytes s = Inl TypeError"
  by (simp add: hex2bytes_def match_pairs_def)

lemma hex2bytes_some: "match_chunks s \<noteq> [] \<Longrightarrow> \<exists>bs. hex2bytes s = Inr bs"
  by (cases "match_chunks s") (simp_all add: hex2bytes_def match_pairs_def)

lemma decryptData_short:
  assumes "tag_128 P" "length (match_chunks s) < 28"
  shows "\<exists>e. decryptData P s k = Inl e"
proof (cases "hex2bytes s")
  case (Inl e)
  then show ?thesis by (simp add: decryptData_def)
next
  case (Inr bs)
  then have "length (drop 12 bs) < 16"
    using hex2bytes_length [OF Inr] assms(2) by simp
  then have "aes_gcm_decrypt P key (take 12 bs) (drop 12 bs) = None" for key
    using assms(1) by (simp add: tag_128_def)
  then show ?thesis
    using Inr by (simp add: decryptData_def split: sum.split)
qed

lemma d1_first_found:
  assumes "\<not> d1_first_fails P db (JStr ident)"
    and "rows db = pre @ (ident, c, t) # post"
    and "ident \<notin> fst ` set pre"
  shows "d1_first P db (JStr ident) = Inr (Some c)"
proof -
  have "find (\<lambda>(i, c, t). i = ident) (pre @ (ident, c, t) # post) = Some (ident, c, t)"
    using assms(3) by (induction pre) auto
  then show ?thesis using assms(1,2) by (simp add: d1_first_def)
qed



lemma retrieve_stored:
  assumes "aead_correct P" "digest_256 P"
    and "\<not> d1_first_fails P (DB env) (JStr (draw_id g))"
    and "rows (DB env) = pre @ (draw_id g, buf2hex (sealed_bytes P g text), t) # post"
    and "draw_id g \<notin> fst ` set pre"
  shows "retrieve P env (Some (share_token P (SECRET_KEY env) g))
     = Response 200 (dec_decode (enc_encode text))"
proof -
  have "decryptData P (buf2hex (sealed_bytes P g text)) (draw_key g)
      = Inr (dec_decode (enc_encode text))"
    unfolding sealed_bytes_def
    by (rule decryptData_sealed [OF assms(1) draw_lengths(1) draw_lengths(2)])
  then show ?thesis
    by (simp add: retrieve_share_token [OF assms(1,2)] d1_first_found [OF assms(3,4,5)])
qed

lemma utf8_lead_bom: "utf8_lead 239 (187 # 191 # rest) = (0xFEFF, rest)"
  using utf8_lead3 [of 15 59 63 rest] by simp

lemma req_text_two_boms:
  "req_text [0xEF, 0xBB, 0xBF, 0xEF, 0xBB, 0xBF, 0x61] = [0xFEFF, 0x61]"
  by (simp add: req_text_def dec_decode_def utf8_lead_bom utf8_lead1 strip_bom_def
      utf16_units_def)

lemma bom_text_decoded: "dec_decode (enc_encode [0xFEFF, 0x61]) = [0x61]"
  by (simp add: dec_enc is_high_surrogate_def is_low_surrogate_def strip_bom_def
      utf16_units_def)











section \<open>Two shares on one table\<close>









lemma key_rng_same_ivs: "draw_iv1 key_rng = draw_iv1 ref_rng" "draw_iv2 key_rng = draw_iv2 ref_rng"
  by (simp_all add: draw_iv1_def draw_iv2_def getRandomValues_def randomUUID_def key_rng_def
      Let_def)






section \<open>Rows written and bytes decoded\<close>

lemma share_text_rows:
  "rows (snd (share_text P env g now text)) = rows (DB env)
   \<or> rows (snd (share_text P env g now text)) = rows (DB env) @ [share_row P g now text]"
proof (cases "text \<noteq> [] \<and> length text \<le> 1024 * 1024")
  case True
  then show ?thesis by (simp add: share_text_valid)
next
  case False
  then show ?thesis by (auto simp: share_text_def)
qed

lemma req_text_hi: "req_text [0x68, 0x69] = js ''hi''"
  by (simp add: req_text_def dec_decode_def utf8_lead1 strip_bom_def utf16_units_def js_def)

lemma utf8_continue_consumes:
  "length bs \<le> length (snd (utf8_continue n cp lo hi bs)) + n"
  by (induction n cp lo hi bs rule: utf8_continue.induct) auto

lemma utf8_lead_consumes: "length bs \<le> length (snd (utf8_lead b bs)) + 3"
proof -
  have "length bs \<le> length (snd (utf8_continue n cp lo hi bs)) + 3" if "n \<le> 3" for n cp lo hi
    using utf8_continue_consumes [of bs n cp lo hi] that by linarith
  then show ?thesis by (simp add: utf8_lead_def)
qed

lemma utf8_decode_length: "length bs \<le> 4 * length (utf8_decode bs)"
proof (induction bs rule: utf8_decode.induct)
  case 1
  then show ?case by simp
next
  case (2 b bs)
  then show ?case using utf8_lead_consumes [of bs b] by simp
qed

lemma utf16_units_length: "length cps \<le> length (concat (map utf16_units cps))"
  by (induction cps) (simp_all add: utf16_units_def)

lemma strip_bom_length: "length cps \<le> length (strip_bom cps) + 1"
  by (simp add: strip_bom_def split: list.split)

lemma dec_decode_length: "length bs \<le> 4 * length (dec_decode bs) + 4"
proof -
  have "length bs \<le> 4 * length (utf8_decode (map unat bs))"
    using utf8_decode_length [of "map unat bs"] by simp
  also have "\<dots> \<le> 4 * (length (strip_bom (utf8_decode (map unat bs))) + 1)"
    using strip_bom_length [of "utf8_decode (map unat bs)"] by simp
  also have "\<dots> \<le> 4 * (length (dec_decode bs) + 1)"
    using utf16_units_length [of "strip_bom (utf8_decode (map unat bs))"]
    by (simp add: dec_decode_def)
  finally show ?thesis by simp
qed

lemma utf8_lead_e_acute: "utf8_lead 195 (169 # rest) = (233, rest)"
  using utf8_lead2 [of 3 41 rest] by simp

lemma utf8_decode_e_acutes:
  "utf8_decode (concat (replicate n [195, 169])) = replicate n 233"
  by (induction n) (simp_all add: utf8_lead_e_acute)

lemma unat_e_acutes:
  "map unat (concat (replicate n [0xC3, 0xA9 :: 8 word])) = concat (replicate n [195, 169])"
  by (induction n) simp_all

lemma units_e_acutes: "concat (map utf16_units (replicate n 233)) = replicate n 0xE9"
proof (induction n)
  case 0
  then show ?case by simp
next
  case (Suc n)
  have "utf16_units 233 = [0xE9]" by (simp add: utf16_units_def)
  then show ?case using Suc by simp
qed

lemma req_text_e_acutes:
  "req_text (concat (replicate n [0xC3, 0xA9])) = replicate n 0xE9"
proof -
  have s: "strip_bom (replicate n 233) = replicate n 233"
    by (cases n) (simp_all add: strip_bom_def)
  show ?thesis
    by (simp only: req_text_def dec_decode_def unat_e_acutes utf8_decode_e_acutes s
        units_e_acutes)
qed

lemma length_e_acutes: "length (concat (replicate n [0xC3, 0xA9 :: 8 word])) = 2 * n"
  by (induction n) simp_all

section \<open>A stored content in another letter case\<close>

lemma buf2hex_append: "buf2hex (xs @ ys) = buf2hex xs @ buf2hex ys"
  by (simp add: buf2hex_def)









section \<open>One code unit of the stored content changed\<close>


















section \<open>Rejected submissions\<close>

text \<open>
  C4. A text that is empty, or longer than \<open>1024 * 1024\<close> code units, is answered with
  status 400 and an error message, not a token, and the database is returned as it was:
  no row is added and no statement is run.
\<close>

theorem share_rejects_bad_input:
  assumes "text = [] \<or> 1024 * 1024 < length text"
  shows "fst (share_text P env g now text) =
           (if text = [] then Response 400 (js ''Error: Text required'')
            else Response 400 (js ''Error: Text too large (>1MB)''))
         \<and> snd (share_text P env g now text) = DB env
         \<and> rows (snd (share_text P env g now text)) = rows (DB env)
         \<and> runs (snd (share_text P env g now text)) = runs (DB env)"
  using assms by (auto simp: share_text_def)

theorem share_rejects_bad_input_witness:
  "fst (share_text ref_runtime ref_env ref_rng 0 (replicate 1048577 0x61)) =
     Response 400 (js ''Error: Text too large (>1MB)'')
   \<and> snd (share_text ref_runtime ref_env ref_rng 0 (replicate 1048577 0x61)) = DB ref_env
   \<and> fst (share_text ref_runtime ref_env ref_rng 0 []) = Response 400 (js ''Error: Text required'')
   \<and> snd (share_text ref_runtime ref_env ref_rng 0 []) = DB ref_env"
  using share_rejects_bad_input [of "replicate 1048577 0x61" ref_runtime ref_env ref_rng 0]
    share_rejects_bad_input [of "[]" ref_runtime ref_env ref_rng 0]
  by simp

section \<open>Storage failure\<close>

text \<open>
  C6. For a text that passes the two checks: when the \<open>INSERT\<close> throws, the answer is
  status 500 with \<open>Error: Database error\<close>, no token, and no row is added; and whenever
  the answer is status 200 with a token, the \<open>INSERT\<close> did not throw and the row is the
  last row of the table.
\<close>

theorem share_storage_failure:
  assumes "text \<noteq> []" "length text \<le> 1024 * 1024"
  shows "(d1_insert_fails P (DB env) (share_row P g now text) \<longrightarrow>
            share_text P env g now text =
              (Response 500 (js ''Error: Database error''),
               (DB env)\<lparr>runs := runs (DB env) + 1\<rparr>))
         \<and> (\<forall>tok. fst (share_text P env g now text) = Response 200 tok \<longrightarrow>
               \<not> d1_insert_fails P (DB env) (share_row P g now text)
               \<and> rows (snd (share_text P env g now text))
                   = rows (DB env) @ [share_row P g now text])"
  by (auto simp: share_text_valid [OF assms] unhandled_def split: sum.splits)

theorem share_storage_failure_witness:
  "share_text failing_runtime ref_env ref_rng 0 (js ''hello world'') =
     (Response 500 (js ''Error: Database error''), (DB ref_env)\<lparr>runs := runs (DB ref_env) + 1\<rparr>)
   \<and> fst (share_text ref_runtime ref_env ref_rng 0 (js ''hello world''))
       = Response 200 (share_token ref_runtime (SECRET_KEY ref_env) ref_rng)
   \<and> rows (snd (share_text ref_runtime ref_env ref_rng 0 (js ''hello world'')))
       = rows (DB ref_env) @ [share_row ref_runtime ref_rng 0 (js ''hello world'')]"
proof -
  have t: "js ''hello world'' \<noteq> []" "length (js ''hello world'') \<le> 1024 * 1024"
    by (simp_all add: js_def)
  have f: "d1_insert_fails failing_runtime (DB ref_env)
      (share_row failing_runtime ref_rng 0 (js ''hello world''))"
    by (simp add: failing_runtime_def)
  have ok: "fst (share_text ref_runtime ref_env ref_rng 0 (js ''hello world''))
       = Response 200 (share_token ref_runtime (SECRET_KEY ref_env) ref_rng)"
    by (simp add: share_text_accepted [OF ref_digest_256 t] ref_insert_ok)
  show ?thesis
    using share_storage_failure [OF t, of failing_runtime ref_env ref_rng 0] f
      share_storage_failure [OF t, of ref_runtime ref_env ref_rng 0] ok
    by blast
qed

section \<open>A token whose record is gone\<close>

text \<open>
  C8. A token that decrypts under the master key to a JSON value whose \<open>id\<close> is a
  string, when the \<open>SELECT\<close> answers and no row has that id, is answered with status 404
  and \<open>Error: Not found\<close>, which is not the answer given to an invalid token.
\<close>

theorem retrieve_not_found:
  assumes "tok \<noteq> []"
    and "decryptData P tok (getMasterKey P (SECRET_KEY env)) = Inr payloadStr"
    and "json_parse payloadStr = Inr v"
    and "get_prop v (js ''id'') = JStr ident"
    and "\<not> d1_first_fails P (DB env) (JStr ident)"
    and "ident \<notin> fst ` set (rows (DB env))"
  shows "retrieve P env (Some tok) = Response 404 (js ''Error: Not found'')
         \<and> retrieve P env (Some tok) \<noteq> Response 400 (js ''Error: Invalid token'')"
proof -
  have v: "v \<noteq> JNull" "v \<noteq> JUndefined" using assms(4) by auto
  have "retrieve_steps P env payloadStr = Inr (Response 404 (js ''Error: Not found''))"
    using v by (simp add: retrieve_steps_def assms(3,4) d1_first_absent [OF assms(5,6)]
        del: get_prop.simps)
  then show ?thesis
    using assms(1,2) by (simp add: retrieve_def)
qed

theorem retrieve_not_found_witness:
  "retrieve ref_runtime ref_env (Some (share_token ref_runtime (SECRET_KEY ref_env) ref_rng))
     = Response 404 (js ''Error: Not found'')
   \<and> retrieve ref_runtime ref_env (Some (share_token ref_runtime (SECRET_KEY ref_env) ref_rng))
     \<noteq> Response 400 (js ''Error: Invalid token'')"
proof -
  have absent: "draw_id ref_rng \<notin> fst ` set (rows (DB ref_env))"
    by (simp add: ref_env_def empty_db_def)
  show ?thesis
    by (rule retrieve_not_found [where ident = "draw_id ref_rng",
          OF share_token_nonempty open_share_token [OF ref_aead_correct ref_digest_256]
             payload_parse payload_props(1) ref_first_ok absent])
qed

section \<open>Failures before the database is read\<close>

text \<open>
  C2, as the code has it. For a token that is not empty: every exception of
  \<open>decryptData\<close> on the token (no chunk to decode, a key that is not accepted, a rejected
  decryption) is answered with status 400 and \<open>Error: Invalid token\<close>; a payload that
  decrypts but that \<open>JSON.parse\<close> rejects is answered with status 500 and
  \<open>Error: Decryption failed or system error\<close>.
\<close>

theorem retrieve_token_failures:
  assumes "tok \<noteq> []"
  shows "(\<forall>e. decryptData P tok (getMasterKey P (SECRET_KEY env)) = Inl e \<longrightarrow>
            retrieve P env (Some tok) = Response 400 (js ''Error: Invalid token''))
         \<and> (\<forall>p e. decryptData P tok (getMasterKey P (SECRET_KEY env)) = Inr p
                 \<and> json_parse p = Inl e \<longrightarrow>
            retrieve P env (Some tok)
              = Response 500 (js ''Error: Decryption failed or system error''))"
  using assms by (simp add: retrieve_def retrieve_steps_def)

theorem retrieve_token_failures_witness:
  "retrieve ref_runtime ref_env (Some (js ''zz'')) = Response 400 (js ''Error: Invalid token'')
   \<and> retrieve ref_runtime ref_env (Some forged_token)
       = Response 500 (js ''Error: Decryption failed or system error'')"
proof -
  have z: "js ''zz'' \<noteq> []" by (simp add: js_def)
  have "hex2bytes (js ''zz'') = Inr [0]"
    by (simp add: hex2bytes_def match_pairs_def js_def is_line_terminator_def parseInt16_def
        is_js_whitespace_def hex_value_def to_uint8_def Let_def)
  then have d: "decryptData ref_runtime (js ''zz'') (getMasterKey ref_runtime (SECRET_KEY ref_env))
      = Inl DecryptionFailed"
    using ref_tag_128 master_key_length [OF ref_digest_256, of "SECRET_KEY ref_env"]
    by (simp add: decryptData_def importKey_32 tag_128_def)
  show ?thesis
    using retrieve_token_failures [OF z, of ref_runtime ref_env] d
      retrieve_token_failures [OF forged_token_nonempty, of ref_runtime ref_env]
      forged_token_opens js_not_json
    by blast
qed

text \<open>
  C2, as stated, fails: \<open>forged_token\<close> decrypts under the master key, its payload is not
  JSON, and the answer is the 500 of the outer \<open>catch\<close>, not \<open>Error: Invalid token\<close>.
\<close>

theorem parse_failure_not_invalid_token:
  "forged_token \<noteq> []
   \<and> decryptData ref_runtime forged_token (getMasterKey ref_runtime (SECRET_KEY ref_env))
       = Inr (js ''not json'')
   \<and> json_parse (js ''not json'') = Inl SyntaxError
   \<and> retrieve ref_runtime ref_env (Some forged_token)
       = Response 500 (js ''Error: Decryption failed or system error'')
   \<and> retrieve ref_runtime ref_env (Some forged_token)
       \<noteq> Response 400 (js ''Error: Invalid token'')"
  by (simp add: forged_token_nonempty forged_token_opens js_not_json retrieve_def
      retrieve_steps_def)

section \<open>What \<open>decryptData\<close> throws\<close>

text \<open>
  C7, as the code has it. When \<open>match\<close> finds at least one chunk and \<open>importKey\<close>
  accepts the key, \<open>decryptData\<close> returns a text or throws the one \<open>Decryption failed\<close>
  error, and it throws that error when the decoded blob is shorter than a nonce and a
  tag. In the retrieve handler a token that is not empty and decodes to fewer than 28
  bytes, and any token that is not empty on which \<open>decryptData\<close> throws, is answered with
  \<open>Error: Invalid token\<close>; no exception leaves the handler.
\<close>

theorem decryptData_failures:
  "(match_chunks hexStr \<noteq> [] \<and> importKey keyBytes = Inr keyBytes \<longrightarrow>
      (\<exists>plain. decryptData P hexStr keyBytes = Inr plain)
      \<or> decryptData P hexStr keyBytes = Inl DecryptionFailed)
   \<and> (tag_128 P \<and> match_chunks hexStr \<noteq> [] \<and> length (match_chunks hexStr) < 28 \<and>
      importKey keyBytes = Inr keyBytes \<longrightarrow>
      decryptData P hexStr keyBytes = Inl DecryptionFailed)
   \<and> (tag_128 P \<and> tok \<noteq> [] \<and> length (match_chunks tok) < 28 \<longrightarrow>
      retrieve P env (Some tok) = Response 400 (js ''Error: Invalid token''))
   \<and> (tok \<noteq> [] \<and> (\<exists>e. decryptData P tok (getMasterKey P (SECRET_KEY env)) = Inl e) \<longrightarrow>
      retrieve P env (Some tok) = Response 400 (js ''Error: Invalid token''))
   \<and> retrieve P env t \<noteq> unhandled"
proof (intro conjI impI)
  assume a: "match_chunks hexStr \<noteq> [] \<and> importKey keyBytes = Inr keyBytes"
  then obtain bs where "hex2bytes hexStr = Inr bs" using hex2bytes_some by blast
  then show "(\<exists>plain. decryptData P hexStr keyBytes = Inr plain)
      \<or> decryptData P hexStr keyBytes = Inl DecryptionFailed"
    using a by (auto simp: decryptData_def split: option.split)
next
  assume a: "tag_128 P \<and> match_chunks hexStr \<noteq> [] \<and> length (match_chunks hexStr) < 28 \<and>
      importKey keyBytes = Inr keyBytes"
  then obtain bs where bs: "hex2bytes hexStr = Inr bs" using hex2bytes_some by blast
  then have "length (drop 12 bs) < 16" using hex2bytes_length [OF bs] a by auto
  then have "aes_gcm_decrypt P keyBytes (take 12 bs) (drop 12 bs) = None"
    using a by (simp add: tag_128_def)
  then show "decryptData P hexStr keyBytes = Inl DecryptionFailed"
    using a bs by (auto simp: decryptData_def)
next
  assume a: "tag_128 P \<and> tok \<noteq> [] \<and> length (match_chunks tok) < 28"
  then obtain e where "decryptData P tok (getMasterKey P (SECRET_KEY env)) = Inl e"
    using decryptData_short by blast
  then show "retrieve P env (Some tok) = Response 400 (js ''Error: Invalid token'')"
    using a by (simp add: retrieve_def)
next
  assume "tok \<noteq> [] \<and> (\<exists>e. decryptData P tok (getMasterKey P (SECRET_KEY env)) = Inl e)"
  then show "retrieve P env (Some tok) = Response 400 (js ''Error: Invalid token'')"
    by (auto simp: retrieve_def)
next
  have n: "js ''Internal Server Error'' \<noteq> js ''Error: Decryption failed or system error''"
    by (simp add: js_def)
  show "retrieve P env t \<noteq> unhandled"
    using n
    by (auto simp: retrieve_def retrieve_steps_def unhandled_def Let_def
        split: option.splits sum.splits if_splits jsval.splits)
qed

theorem decryptData_failures_witness:
  "decryptData ref_runtime (js ''zz'') (replicate 32 0) = Inl DecryptionFailed
   \<and> retrieve ref_runtime ref_env (Some (js ''zz'')) = Response 400 (js ''Error: Invalid token'')"
proof -
  have m: "match_chunks (js ''zz'') = [js ''zz'']"
    by (simp add: js_def is_line_terminator_def)
  have z: "js ''zz'' \<noteq> []" by (simp add: js_def)
  show ?thesis
    using decryptData_failures [of "js ''zz''" "replicate 32 0" ref_runtime "js ''zz''" ref_env]
      ref_tag_128 z
    by (simp add: m importKey_def)
qed

text \<open>
  C7, as stated, fails: on the empty string \<open>match\<close> returns \<open>null\<close> and the error is the
  \<open>TypeError\<close> of \<open>null.map\<close>; with a key of no accepted length the error is the
  \<open>DataError\<close> of \<open>importKey\<close>. Neither is \<open>Decryption failed\<close>.
\<close>

theorem empty_blob_other_error:
  "decryptData ref_runtime [] (replicate 32 0) = Inl TypeError
   \<and> decryptData ref_runtime [] (replicate 32 0) \<noteq> Inl DecryptionFailed
   \<and> decryptData ref_runtime (js ''00'') [] = Inl DataError
   \<and> decryptData ref_runtime (js ''00'') [] \<noteq> Inl DecryptionFailed"
proof -
  have "hex2bytes (js ''00'') = Inr [0]"
    by (simp add: hex2bytes_def match_pairs_def js_def is_line_terminator_def parseInt16_def
        is_js_whitespace_def hex_value_def to_uint8_def digits_value_def Let_def)
  then show ?thesis
    by (simp add: decryptData_def hex2bytes_def match_pairs_def importKey_def)
qed

section \<open>Sharing and retrieving\<close>

text \<open>
  C1. The round trip fails on a text that begins with U+FEFF. The request body
  \<open>EF BB BF EF BB BF 61\<close> is read as the two code units U+FEFF and \<open>a\<close>; it is accepted
  and stored; retrieving the token that was returned gives the one code unit \<open>a\<close>,
  because \<open>dec.decode\<close> drops a leading U+FEFF.
\<close>

theorem bom_lost_in_round_trip:
  "req_text [0xEF, 0xBB, 0xBF, 0xEF, 0xBB, 0xBF, 0x61] = [0xFEFF, 0x61]
   \<and> fst (share ref_runtime ref_env ref_rng 0 [0xEF, 0xBB, 0xBF, 0xEF, 0xBB, 0xBF, 0x61])
       = Response 200 (share_token ref_runtime (SECRET_KEY ref_env) ref_rng)
   \<and> retrieve ref_runtime
         (ref_env\<lparr>DB := snd (share ref_runtime ref_env ref_rng 0
                               [0xEF, 0xBB, 0xBF, 0xEF, 0xBB, 0xBF, 0x61])\<rparr>)
         (Some (share_token ref_runtime (SECRET_KEY ref_env) ref_rng))
       = Response 200 [0x61]"
proof -
  let ?text = "[0xFEFF, 0x61] :: jsstring"
  have v: "?text \<noteq> []" "length ?text \<le> 1024 * 1024" by simp_all
  have sh: "share ref_runtime ref_env ref_rng 0 [0xEF, 0xBB, 0xBF, 0xEF, 0xBB, 0xBF, 0x61]
      = (Response 200 (share_token ref_runtime (SECRET_KEY ref_env) ref_rng),
         (DB ref_env)\<lparr>rows := rows (DB ref_env) @ [share_row ref_runtime ref_rng 0 ?text],
                        runs := runs (DB ref_env) + 1\<rparr>)"
    unfolding share_def req_text_two_boms
    by (simp add: share_text_accepted [OF ref_digest_256 v] ref_insert_ok)
  have "retrieve ref_runtime
      (ref_env\<lparr>DB := (DB ref_env)\<lparr>rows := rows (DB ref_env) @ [share_row ref_runtime ref_rng 0 ?text],
                        runs := runs (DB ref_env) + 1\<rparr>\<rparr>)
      (Some (share_token ref_runtime (SECRET_KEY (ref_env\<lparr>DB := (DB ref_env)\<lparr>rows := rows (DB ref_env) @ [share_row ref_runtime ref_rng 0 ?text],
                        runs := runs (DB ref_env) + 1\<rparr>\<rparr>)) ref_rng))
      = Response 200 (dec_decode (enc_encode ?text))"
    by (rule retrieve_stored [OF ref_aead_correct ref_digest_256 ref_first_ok,
          where pre = "[]" and post = "[]" and t = 0])
       (simp_all add: share_row_def ref_env_def empty_db_def)
  then show ?thesis
    by (simp add: sh req_text_two_boms bom_text_decoded)
qed




section \<open>Tampering with the stored content\<close>



section \<open>What the table holds\<close>

text \<open>
  C3. In every database that calls of the share handler produce from the empty table,
  every row is a \<open>share_row\<close>: the identifier drawn, the hex of the nonce followed by the
  output of AES-GCM, and the timestamp. The data key enters a row only as the key given
  to AES-GCM. One more call leaves the rows as they are or appends one such row.
\<close>

theorem store_rows_are_sealed:
  assumes "reachable P secret db"
  shows "(\<forall>r \<in> set (rows db). \<exists>g now text. r = share_row P g now text)
         \<and> (rows (snd (share P \<lparr>DB = db, SECRET_KEY = secret\<rparr> g' now' body)) = rows db
            \<or> rows (snd (share P \<lparr>DB = db, SECRET_KEY = secret\<rparr> g' now' body))
                = rows db @ [share_row P g' now' (req_text body)])"
proof
  show "\<forall>r \<in> set (rows db). \<exists>g now text. r = share_row P g now text"
    using assms
  proof (induction rule: reachable.induct)
    case start
    then show ?case by simp
  next
    case (after_share db g now body)
    let ?db' = "snd (share P \<lparr>DB = db, SECRET_KEY = secret\<rparr> g now body)"
    show ?case
    proof
      fix r
      assume r: "r \<in> set (rows ?db')"
      consider "rows ?db' = rows db" | "rows ?db' = rows db @ [share_row P g now (req_text body)]"
        using share_text_rows [of P "\<lparr>DB = db, SECRET_KEY = secret\<rparr>" g now "req_text body"]
        by (auto simp: share_def)
      then show "\<exists>g now text. r = share_row P g now text"
      proof cases
        case 1
        then show ?thesis using r after_share.IH by simp
      next
        case 2
        then have "r \<in> set (rows db) \<or> r = share_row P g now (req_text body)"
          using r by auto
        then show ?thesis using after_share.IH by blast
      qed
    qed
  qed
  show "rows (snd (share P \<lparr>DB = db, SECRET_KEY = secret\<rparr> g' now' body)) = rows db
            \<or> rows (snd (share P \<lparr>DB = db, SECRET_KEY = secret\<rparr> g' now' body))
                = rows db @ [share_row P g' now' (req_text body)]"
    using share_text_rows [of P "\<lparr>DB = db, SECRET_KEY = secret\<rparr>" g' now' "req_text body"]
    by (simp add: share_def)
qed

theorem store_rows_are_sealed_witness:
  "reachable ref_runtime (js ''secret'')
     (snd (share ref_runtime \<lparr>DB = \<lparr>rows = [], runs = 0\<rparr>, SECRET_KEY = js ''secret''\<rparr>
        ref_rng 0 [0x68, 0x69]))
   \<and> rows (snd (share ref_runtime \<lparr>DB = \<lparr>rows = [], runs = 0\<rparr>, SECRET_KEY = js ''secret''\<rparr>
        ref_rng 0 [0x68, 0x69]))
       = [share_row ref_runtime ref_rng 0 (js ''hi'')]
   \<and> (\<exists>g now text.
        hd (rows (snd (share ref_runtime \<lparr>DB = \<lparr>rows = [], runs = 0\<rparr>, SECRET_KEY = js ''secret''\<rparr>
          ref_rng 0 [0x68, 0x69])))
        = share_row ref_runtime g now text)"
proof -
  let ?db = "snd (share ref_runtime \<lparr>DB = \<lparr>rows = [], runs = 0\<rparr>, SECRET_KEY = js ''secret''\<rparr>
        ref_rng 0 [0x68, 0x69])"
  have r: "reachable ref_runtime (js ''secret'') ?db"
    by (rule reachable.after_share [OF reachable.start])
  have t: "js ''hi'' \<noteq> []" "length (js ''hi'') \<le> 1024 * 1024" by (simp_all add: js_def)
  have rows: "rows ?db = [share_row ref_runtime ref_rng 0 (js ''hi'')]"
    by (simp add: share_def req_text_hi share_text_accepted [OF ref_digest_256 t] ref_insert_ok)
  then have "hd (rows ?db) \<in> set (rows ?db)" by simp
  then show ?thesis
    using store_rows_are_sealed [OF r, of ref_rng 0 "[]"] r rows by blast
qed

section \<open>The unit of the size limit\<close>

text \<open>
  C10, as the code has it. The limit is on \<open>text.length\<close>, the number of UTF-16 code
  units of the decoded body. A body of more than \<open>1024 * 1024\<close> bytes whose text has at
  most \<open>1024 * 1024\<close> code units passes both checks. It is then stored and answered with
  status 200 and the token unless the \<open>INSERT\<close> throws; if it throws, the answer is
  status 500 with \<open>Error: Database error\<close> and no row is added.
\<close>

theorem share_limit_counts_code_units:
  assumes "digest_256 P"
    and "1024 * 1024 < length body"
    and "length (req_text body) \<le> 1024 * 1024"
  shows "share P env g now body =
           (if d1_insert_fails P (DB env) (share_row P g now (req_text body))
            then (Response 500 (js ''Error: Database error''),
                  (DB env)\<lparr>runs := runs (DB env) + 1\<rparr>)
            else (Response 200 (share_token P (SECRET_KEY env) g),
                  (DB env)\<lparr>rows := rows (DB env) @ [share_row P g now (req_text body)],
                            runs := runs (DB env) + 1\<rparr>))
         \<and> fst (share P env g now body) \<noteq> Response 400 (js ''Error: Text too large (>1MB)'')
         \<and> fst (share P env g now body) \<noteq> Response 400 (js ''Error: Text required'')"
proof -
  have "req_text body \<noteq> []"
  proof
    assume "req_text body = []"
    then have "length body \<le> 4"
      using dec_decode_length [of body] by (simp add: req_text_def)
    then show False using assms(2) by simp
  qed
  then show ?thesis
    by (simp add: share_def share_text_accepted [OF assms(1) _ assms(3)])
qed

theorem share_limit_counts_code_units_witness:
  "1024 * 1024 < length (concat (replicate 524289 [0xC3, 0xA9 :: 8 word]))
   \<and> length (req_text (concat (replicate 524289 [0xC3, 0xA9]))) \<le> 1024 * 1024
   \<and> share ref_runtime ref_env ref_rng 0 (concat (replicate 524289 [0xC3, 0xA9]))
       = (Response 200 (share_token ref_runtime (SECRET_KEY ref_env) ref_rng),
          (DB ref_env)\<lparr>rows := rows (DB ref_env) @
                              [share_row ref_runtime ref_rng 0 (replicate 524289 0xE9)],
                         runs := runs (DB ref_env) + 1\<rparr>)"
proof -
  have a: "1024 * 1024 < length (concat (replicate 524289 [0xC3, 0xA9 :: 8 word]))"
    by (simp add: length_e_acutes)
  have b: "length (req_text (concat (replicate 524289 [0xC3, 0xA9]))) \<le> 1024 * 1024"
    by (simp add: req_text_e_acutes)
  show ?thesis
    using share_limit_counts_code_units [OF ref_digest_256 a b, of ref_env ref_rng 0] a b
    by (simp add: req_text_e_acutes ref_insert_ok)
qed

text \<open>
  C10, as stated, fails where the \<open>INSERT\<close> throws: a body of 1048578 bytes whose text
  has 524289 code units passes the size check and is not stored.
\<close>

theorem accepted_body_not_stored:
  "1024 * 1024 < length (concat (replicate 524289 [0xC3, 0xA9 :: 8 word]))
   \<and> length (req_text (concat (replicate 524289 [0xC3, 0xA9]))) \<le> 1024 * 1024
   \<and> share failing_runtime ref_env ref_rng 0 (concat (replicate 524289 [0xC3, 0xA9]))
       = (Response 500 (js ''Error: Database error''),
          (DB ref_env)\<lparr>runs := runs (DB ref_env) + 1\<rparr>)
   \<and> rows (snd (share failing_runtime ref_env ref_rng 0
                   (concat (replicate 524289 [0xC3, 0xA9])))) = rows (DB ref_env)"
proof -
  have t: "replicate 524289 (0xE9 :: 16 word) \<noteq> []"
    "length (replicate 524289 (0xE9 :: 16 word)) \<le> 1024 * 1024"
    by simp_all
  have f: "d1_insert_fails failing_runtime db r" for db r
    by (simp add: failing_runtime_def)
  show ?thesis
    by (simp add: length_e_acutes req_text_e_acutes share_def share_text_valid [OF t] f)
qed


end
